theory Spec2Isabelle
  imports Complex_Main
begin

section \<open>The entity model of gtfslib (\<^verbatim>\<open>gtfslib/model.py\<close>)\<close>

text \<open>
  The module holds the record classes of a transit feed and a little logic on them:
  date arithmetic on \<^verbatim>\<open>CalendarDate\<close>, the pairing of consecutive stop times of a
  \<^verbatim>\<open>Trip\<close>, and the ordering, equality and hashing of \<^verbatim>\<open>StopTime\<close>.
  The code is Python and untyped; the embedding below models Python 3, with strings over
  the code points below 256.
\<close>

subsection \<open>Python values\<close>

text \<open>
  \<^verbatim>\<open>datetime.date\<close> stores a year, a month and a day. Its constructor only
  builds dates of the proleptic Gregorian calendar between 0001-01-01 and 9999-12-31
  (see \<open>date_new\<close> below); a record outside that range stands for no Python object.
\<close>

record date =
  year :: int
  month :: int
  day :: int

text \<open>
  A float is modelled by the number it denotes, an infinity or NaN. No arithmetic is done
  on floats in this module; they are only compared and tested by \<^verbatim>\<open>isinstance\<close>.
\<close>

datatype pyfloat = Finite rat | PosInf | NegInf | NaN

text \<open>
  The values an attribute of an entity holds: the columns of a feed row.
  \<open>PyObject a\<close> is an instance of some other class with the default comparison by
  identity, \<open>a\<close> being its address.
\<close>

datatype pyval =
    PyNone
  | PyBool bool
  | PyInt int
  | PyFloat pyfloat
  | PyStr string
  | PyDate date
  | PyObject nat

subsection \<open>The entity classes\<close>

text \<open>
  Each class is a record of the attributes that \<^verbatim>\<open>__init__\<close> sets, in the order of
  the assignments. \<open>extras\<close> is the part of the instance dictionary filled by
  \<^verbatim>\<open>for key in kwargs: setattr(self, key, kwargs[key])\<close>.
\<close>

record FeedInfo =
  feed_id :: pyval

record Agency =
  feed_id :: pyval
  agency_id :: pyval
  agency_name :: pyval
  agency_url :: pyval
  agency_timezone :: pyval
  extras :: "string \<rightharpoonup> pyval"

record Stop =
  feed_id :: pyval
  stop_id :: pyval
  location_type :: pyval
  stop_name :: pyval
  stop_lat :: pyval
  stop_lon :: pyval
  parent_station_id :: pyval
  wheelchair_boarding :: pyval
  extras :: "string \<rightharpoonup> pyval"

record Route =
  feed_id :: pyval
  route_id :: pyval
  agency_id :: pyval
  route_type :: pyval
  extras :: "string \<rightharpoonup> pyval"

record Calendar =
  feed_id :: pyval
  service_id :: pyval

text \<open>
  \<^verbatim>\<open>CalendarDate.__init__\<close> sets \<^verbatim>\<open>feed_id\<close> to \<^verbatim>\<open>None\<close> and does not set
  \<^verbatim>\<open>service_id\<close>: the loader assigns both later. \<open>service_id = None\<close> means the
  attribute is absent (\<^verbatim>\<open>hasattr\<close> is false).
\<close>

record CalendarDate =
  feed_id :: pyval
  date :: date
  service_id :: "pyval option"

record StopTime =
  feed_id :: pyval
  trip_id :: pyval
  stop_id :: pyval
  stop_sequence :: pyval
  arrival_time :: pyval
  departure_time :: pyval
  interpolated :: pyval
  shape_dist_traveled :: pyval
  timepoint :: pyval
  pickup_type :: pyval
  dropoff_type :: pyval
  extras :: "string \<rightharpoonup> pyval"

text \<open>
  \<^verbatim>\<open>stop_times\<close> is no parameter of \<^verbatim>\<open>Trip.__init__\<close>: the loader attaches the
  list of the trip's stop times afterwards. Until then the attribute is absent (\<open>None\<close>),
  and reading it raises \<^verbatim>\<open>AttributeError\<close>. The extras hold the scalar columns of the
  feed row; the attached list stands apart from them.
\<close>

record Trip =
  feed_id :: pyval
  trip_id :: pyval
  route_id :: pyval
  service_id :: pyval
  wheelchair_accessible :: pyval
  bikes_allowed :: pyval
  exact_times :: pyval
  extras :: "string \<rightharpoonup> pyval"
  stop_times :: "StopTime list option"

text \<open>Any operand a comparison can receive: a plain value or an instance of a class.\<close>

datatype pyobj =
    Val pyval
  | FeedInfoObj FeedInfo
  | AgencyObj Agency
  | StopObj Stop
  | RouteObj Route
  | CalendarObj Calendar
  | CalendarDateObj CalendarDate
  | TripObj Trip
  | StopTimeObj StopTime

text \<open>
  The exceptions the module and the primitives it calls can raise. \<open>CoerceError v\<close> is the
  \<^verbatim>\<open>ValueError\<close> of \<^verbatim>\<open>CalendarDate._coerce\<close>, whose message is formatted from
  the operand \<open>v\<close>; \<open>AttributeError a\<close> names the attribute that was not found.
\<close>

datatype py_error =
    ValueError
  | CoerceError pyobj
  | IndexError
  | TypeError
  | AttributeError string
  | OverflowError

subsection \<open>The primitives of \<^verbatim>\<open>datetime.date\<close>\<close>

text \<open>
  The date arithmetic of the standard library, as its reference implementation computes
  it: the ordinal of a date is the number of days since 0000-12-31, so 0001-01-01 has
  ordinal 1. Python's \<^verbatim>\<open>//\<close> and \<^verbatim>\<open>%\<close> round to the floor, as \<open>div\<close> and
  \<open>mod\<close> on \<open>int\<close> do.
\<close>

definition MINYEAR :: int where "MINYEAR = 1"
definition MAXYEAR :: int where "MAXYEAR = 9999"
definition MAXORDINAL :: int where "MAXORDINAL = 3652059"

definition DAYS_IN_MONTH :: "int list" where
  "DAYS_IN_MONTH = [-1, 31, 28, 31, 30, 31, 30, 31, 31, 30, 31, 30, 31]"

definition DAYS_BEFORE_MONTH :: "int list" where
  "DAYS_BEFORE_MONTH = [-1, 0, 31, 59, 90, 120, 151, 181, 212, 243, 273, 304, 334]"

definition is_leap :: "int \<Rightarrow> bool" where
  "is_leap y \<longleftrightarrow> y mod 4 = 0 \<and> (y mod 100 \<noteq> 0 \<or> y mod 400 = 0)"

definition days_before_year :: "int \<Rightarrow> int" where
  "days_before_year y0 = (let y = y0 - 1 in y * 365 + y div 4 - y div 100 + y div 400)"

definition days_in_month :: "int \<Rightarrow> int \<Rightarrow> int" where
  "days_in_month y m = (if m = 2 \<and> is_leap y then 29 else DAYS_IN_MONTH ! nat m)"

definition days_before_month :: "int \<Rightarrow> int \<Rightarrow> int" where
  "days_before_month y m = DAYS_BEFORE_MONTH ! nat m + (if m > 2 \<and> is_leap y then 1 else 0)"

definition ymd2ord :: "int \<Rightarrow> int \<Rightarrow> int \<Rightarrow> int" where
  "ymd2ord y m d = days_before_year y + days_before_month y m + d"

text \<open>
  The second half of \<^verbatim>\<open>_ord2ymd\<close>: the month and the day of the \<open>n\<close>-th day
  (from 0) of a year. The month is estimated by a shift, \<^verbatim>\<open>(n + 50) >> 5\<close>, and
  corrected when the estimate is one too large.
\<close>

definition month_day_of :: "bool \<Rightarrow> int \<Rightarrow> int \<times> int" where
  "month_day_of leapyear n =
     (let m = (n + 50) div 32;
          preceding = DAYS_BEFORE_MONTH ! nat m + (if m > 2 \<and> leapyear then 1 else 0)
      in if preceding > n
         then (let m' = m - 1;
                   preceding' = preceding
                     - (DAYS_IN_MONTH ! nat m' + (if m' = 2 \<and> leapyear then 1 else 0))
               in (m', n - preceding' + 1))
         else (m, n - preceding + 1))"

definition ord2ymd :: "int \<Rightarrow> int \<times> int \<times> int" where
  "ord2ymd ordinal =
     (let n = ordinal - 1;
          n400 = n div 146097; n = n mod 146097;
          y = n400 * 400 + 1;
          n100 = n div 36524; n = n mod 36524;
          n4 = n div 1461; n = n mod 1461;
          n1 = n div 365; n = n mod 365;
          y = y + n100 * 100 + n4 * 4 + n1
      in if n1 = 4 \<or> n100 = 4 then (y - 1, 12, 31)
         else
           let leapyear = (n1 = 3 \<and> (n4 \<noteq> 24 \<or> n100 = 3))
           in (case month_day_of leapyear n of (m, d) \<Rightarrow> (y, m, d)))"

text \<open>\<^verbatim>\<open>datetime.date(year, month, day)\<close>: the checks of the constructor, in its order.\<close>

definition date_new :: "int \<Rightarrow> int \<Rightarrow> int \<Rightarrow> py_error + date" where
  "date_new y m d =
     (if \<not> (MINYEAR \<le> y \<and> y \<le> MAXYEAR) then Inl ValueError
      else if \<not> (1 \<le> m \<and> m \<le> 12) then Inl ValueError
      else if \<not> (1 \<le> d \<and> d \<le> days_in_month y m) then Inl ValueError
      else Inr \<lparr>year = y, month = m, day = d\<rparr>)"

text \<open>The records that stand for a date object: those the constructor builds.\<close>

definition valid_date :: "date \<Rightarrow> bool" where
  "valid_date dt \<longleftrightarrow> date_new (year dt) (month dt) (day dt) = Inr dt"

definition toordinal :: "date \<Rightarrow> int" where
  "toordinal dt = ymd2ord (year dt) (month dt) (day dt)"

definition fromordinal :: "int \<Rightarrow> date" where
  "fromordinal n = (case ord2ymd n of (y, m, d) \<Rightarrow> \<lparr>year = y, month = m, day = d\<rparr>)"

text \<open>Dates compare as the tuples \<open>(year, month, day)\<close>.\<close>

definition date_lt :: "date \<Rightarrow> date \<Rightarrow> bool" where
  "date_lt a b \<longleftrightarrow>
     year a < year b \<or> (year a = year b \<and>
       (month a < month b \<or> (month a = month b \<and> day a < day b)))"

text \<open>
  \<^verbatim>\<open>dt + datetime.timedelta(days=n)\<close>: the timedelta itself is limited to
  999999999 days, and the sum must be an ordinal of the calendar.
\<close>

definition date_add_days :: "date \<Rightarrow> int \<Rightarrow> py_error + date" where
  "date_add_days dt n =
     (if \<not> (- 999999999 \<le> n \<and> n \<le> 999999999) then Inl OverflowError
      else let o' = toordinal dt + n
           in if 0 < o' \<and> o' \<le> MAXORDINAL then Inr (fromordinal o') else Inl OverflowError)"

text \<open>\<^verbatim>\<open>(a - b).days\<close> for two dates.\<close>

definition date_sub_days :: "date \<Rightarrow> date \<Rightarrow> int" where
  "date_sub_days a b = toordinal a - toordinal b"

subsection \<open>The primitives on strings\<close>

text \<open>
  \<^verbatim>\<open>int(s)\<close> on a string: white space around the literal is dropped, a sign may
  lead, and the digits may be grouped by single underscores. Anything else raises
  \<^verbatim>\<open>ValueError\<close>.
\<close>

definition is_space :: "char \<Rightarrow> bool" where
  "is_space c =
     (let n = (of_char c :: nat)
      in (9 \<le> n \<and> n \<le> 13) \<or> (28 \<le> n \<and> n \<le> 32) \<or> n = 133 \<or> n = 160)"

definition is_digit :: "char \<Rightarrow> bool" where
  "is_digit c = (let n = (of_char c :: nat) in 48 \<le> n \<and> n \<le> 57)"

definition digit_val :: "char \<Rightarrow> int" where
  "digit_val c = int (of_char c) - 48"

definition strip :: "string \<Rightarrow> string" where
  "strip s = rev (dropWhile is_space (rev (dropWhile is_space s)))"

fun digits_value :: "int \<Rightarrow> string \<Rightarrow> int option" where
  "digits_value acc [] = Some acc"
| "digits_value acc (c # cs) =
     (if is_digit c then digits_value (acc * 10 + digit_val c) cs
      else if c = CHR ''_'' then
        (case cs of
           [] \<Rightarrow> None
         | d # ds \<Rightarrow> if is_digit d then digits_value (acc * 10 + digit_val d) ds else None)
      else None)"

definition unsigned_int :: "string \<Rightarrow> int option" where
  "unsigned_int s =
     (case s of
        [] \<Rightarrow> None
      | c # cs \<Rightarrow> if is_digit c then digits_value (digit_val c) cs else None)"

definition py_int :: "string \<Rightarrow> py_error + int" where
  "py_int s =
     (let t = strip s;
          neg = (case t of [] \<Rightarrow> False | c # _ \<Rightarrow> c = CHR ''-'');
          signed = (case t of [] \<Rightarrow> False | c # _ \<Rightarrow> c = CHR ''-'' \<or> c = CHR ''+'');
          body = (if signed then tl t else t)
      in case unsigned_int body of
           None \<Rightarrow> Inl ValueError
         | Some v \<Rightarrow> Inr (if neg then - v else v))"

text \<open>\<^verbatim>\<open>s[i:j]\<close> for \<open>0 \<le> i \<le> j\<close>: a slice is cut short at the end and never fails.\<close>

definition slice :: "'a list \<Rightarrow> nat \<Rightarrow> nat \<Rightarrow> 'a list" where
  "slice s i j = take (j - i) (drop i s)"

text \<open>\<^verbatim>\<open>s.split(sep)\<close> for a separator of one character: at least one part.\<close>

fun split_on :: "char \<Rightarrow> string \<Rightarrow> string list" where
  "split_on sep [] = [[]]"
| "split_on sep (c # cs) =
     (if c = sep then [] # split_on sep cs
      else (case split_on sep cs of
              [] \<Rightarrow> [[c]]
            | p # ps \<Rightarrow> (c # p) # ps))"

text \<open>\<^verbatim>\<open>xs[i]\<close> for \<open>i \<ge> 0\<close>.\<close>

definition py_index :: "'a list \<Rightarrow> nat \<Rightarrow> py_error + 'a" where
  "py_index xs i = (if i < length xs then Inr (xs ! i) else Inl IndexError)"

text \<open>
  Formatting with \<^verbatim>\<open>{n:04}\<close> and \<^verbatim>\<open>{n:02}\<close>, for \<open>n \<ge> 0\<close>: the decimal
  digits, padded with zeros on the left up to the width.
\<close>

fun digits_of :: "nat \<Rightarrow> string" where
  "digits_of n =
     (if n < 10 then [char_of (48 + n)]
      else digits_of (n div 10) @ [char_of (48 + n mod 10)])"

declare digits_of.simps [simp del]

definition zero_pad :: "nat \<Rightarrow> int \<Rightarrow> string" where
  "zero_pad w n = (let ds = digits_of (nat n) in replicate (w - length ds) CHR ''0'' @ ds)"

definition format_YYYYMMDD :: "int \<Rightarrow> int \<Rightarrow> int \<Rightarrow> string" where
  "format_YYYYMMDD y m d = zero_pad 4 y @ zero_pad 2 m @ zero_pad 2 d"

definition isoformat :: "date \<Rightarrow> string" where
  "isoformat dt = zero_pad 4 (year dt) @ ''-'' @ zero_pad 2 (month dt) @ ''-'' @ zero_pad 2 (day dt)"

subsection \<open>Comparing values\<close>

text \<open>
  Python's \<^verbatim>\<open>==\<close>, \<^verbatim>\<open>!=\<close> and \<^verbatim>\<open><\<close> on the values above. Booleans, integers and
  floats compare by their number, NaN being equal to and less than nothing; strings
  compare by code points; \<^verbatim>\<open><\<close> between other kinds raises \<^verbatim>\<open>TypeError\<close>.
\<close>

fun num_of :: "pyval \<Rightarrow> pyfloat option" where
  "num_of (PyBool b) = Some (Finite (if b then 1 else 0))"
| "num_of (PyInt n) = Some (Finite (of_int n))"
| "num_of (PyFloat f) = Some f"
| "num_of _ = None"

fun float_eq :: "pyfloat \<Rightarrow> pyfloat \<Rightarrow> bool" where
  "float_eq NaN _ = False"
| "float_eq _ NaN = False"
| "float_eq a b = (a = b)"

fun float_lt :: "pyfloat \<Rightarrow> pyfloat \<Rightarrow> bool" where
  "float_lt NaN _ = False"
| "float_lt _ NaN = False"
| "float_lt (Finite a) (Finite b) = (a < b)"
| "float_lt NegInf NegInf = False"
| "float_lt NegInf _ = True"
| "float_lt _ NegInf = False"
| "float_lt PosInf _ = False"
| "float_lt _ PosInf = True"

fun str_lt :: "string \<Rightarrow> string \<Rightarrow> bool" where
  "str_lt [] [] = False"
| "str_lt [] (b # bs) = True"
| "str_lt (a # as) [] = False"
| "str_lt (a # as) (b # bs) =
     (if (of_char a :: nat) < of_char b then True
      else if a = b then str_lt as bs else False)"

definition py_eq :: "pyval \<Rightarrow> pyval \<Rightarrow> bool" where
  "py_eq a b =
     (case (num_of a, num_of b) of
        (Some x, Some y) \<Rightarrow> float_eq x y
      | (Some x, None) \<Rightarrow> False
      | (None, Some y) \<Rightarrow> False
      | (None, None) \<Rightarrow> a = b)"

definition py_ne :: "pyval \<Rightarrow> pyval \<Rightarrow> bool" where
  "py_ne a b = (\<not> py_eq a b)"

definition py_lt :: "pyval \<Rightarrow> pyval \<Rightarrow> py_error + bool" where
  "py_lt a b =
     (case (num_of a, num_of b) of
        (Some x, Some y) \<Rightarrow> Inr (float_lt x y)
      | (Some x, None) \<Rightarrow> Inl TypeError
      | (None, Some y) \<Rightarrow> Inl TypeError
      | (None, None) \<Rightarrow>
          (case a of
             PyStr s \<Rightarrow> (case b of PyStr t \<Rightarrow> Inr (str_lt s t) | _ \<Rightarrow> Inl TypeError)
           | PyDate d \<Rightarrow> (case b of PyDate e \<Rightarrow> Inr (date_lt d e) | _ \<Rightarrow> Inl TypeError)
           | _ \<Rightarrow> Inl TypeError))"

subsection \<open>\<^verbatim>\<open>CalendarDate\<close>\<close>

definition CalendarDate_init :: "date \<Rightarrow> CalendarDate" where
  "CalendarDate_init dt = \<lparr>CalendarDate.feed_id = PyNone, date = dt, service_id = None\<rparr>"

text \<open>\<^verbatim>\<open>return cls(datetime.date(year, month, day))\<close>\<close>

definition ymd :: "int \<Rightarrow> int \<Rightarrow> int \<Rightarrow> py_error + CalendarDate" where
  "ymd y m d = (case date_new y m d of Inl e \<Rightarrow> Inl e | Inr dt \<Rightarrow> Inr (CalendarDate_init dt))"

text \<open>
  \<^verbatim>\<open>return cls.ymd(int(yyyymmdd[:4]), int(yyyymmdd[4:6]), int(yyyymmdd[6:8]))\<close>:
  the arguments are evaluated from left to right.
\<close>

definition fromYYYYMMDD :: "string \<Rightarrow> py_error + CalendarDate" where
  "fromYYYYMMDD yyyymmdd =
     (case py_int (slice yyyymmdd 0 4) of Inl e \<Rightarrow> Inl e | Inr y \<Rightarrow>
     (case py_int (slice yyyymmdd 4 6) of Inl e \<Rightarrow> Inl e | Inr m \<Rightarrow>
     (case py_int (slice yyyymmdd 6 8) of Inl e \<Rightarrow> Inl e | Inr d \<Rightarrow>
      ymd y m d)))"

text \<open>\<^verbatim>\<open>return CalendarDate(self.date + datetime.timedelta(days=ndays))\<close>\<close>

definition next_day :: "CalendarDate \<Rightarrow> int \<Rightarrow> py_error + CalendarDate" where
  "next_day self ndays =
     (case date_add_days (date self) ndays of
        Inl e \<Rightarrow> Inl e
      | Inr dt \<Rightarrow> Inr (CalendarDate_init dt))"

definition as_date :: "CalendarDate \<Rightarrow> date" where
  "as_date self = date self"

text \<open>
  \<^verbatim>\<open>_coerce\<close>: the three \<^verbatim>\<open>isinstance\<close> tests in the order of the source, then the
  \<^verbatim>\<open>raise\<close>. For a string, \<^verbatim>\<open>ymd[0]\<close>, \<^verbatim>\<open>int\<close>, \<^verbatim>\<open>ymd[1]\<close>, ... are
  evaluated from left to right, and the first failure is the one raised.
\<close>

definition coerce :: "pyobj \<Rightarrow> py_error + date" where
  "coerce other =
     (case other of
        Val (PyStr s) \<Rightarrow>
          (let parts = split_on CHR ''-'' s in
           (case py_index parts 0 of Inl e \<Rightarrow> Inl e | Inr s0 \<Rightarrow>
           (case py_int s0 of Inl e \<Rightarrow> Inl e | Inr y \<Rightarrow>
           (case py_index parts 1 of Inl e \<Rightarrow> Inl e | Inr s1 \<Rightarrow>
           (case py_int s1 of Inl e \<Rightarrow> Inl e | Inr m \<Rightarrow>
           (case py_index parts 2 of Inl e \<Rightarrow> Inl e | Inr s2 \<Rightarrow>
           (case py_int s2 of Inl e \<Rightarrow> Inl e | Inr d \<Rightarrow>
            date_new y m d)))))))
      | Val (PyDate dt) \<Rightarrow> Inr dt
      | CalendarDateObj c \<Rightarrow> Inr (date c)
      | _ \<Rightarrow> Inl (CoerceError other))"

definition CalendarDate_lt :: "CalendarDate \<Rightarrow> pyobj \<Rightarrow> py_error + bool" where
  "CalendarDate_lt self other =
     (case coerce other of Inl e \<Rightarrow> Inl e | Inr dt \<Rightarrow> Inr (date_lt (date self) dt))"

definition CalendarDate_eq :: "CalendarDate \<Rightarrow> pyobj \<Rightarrow> py_error + bool" where
  "CalendarDate_eq self other =
     (case coerce other of Inl e \<Rightarrow> Inl e | Inr dt \<Rightarrow> Inr (date self = dt))"

definition CalendarDate_ne :: "CalendarDate \<Rightarrow> pyobj \<Rightarrow> py_error + bool" where
  "CalendarDate_ne self other =
     (case coerce other of Inl e \<Rightarrow> Inl e | Inr dt \<Rightarrow> Inr (date self \<noteq> dt))"

text \<open>
  The class is decorated with \<^verbatim>\<open>functools.total_ordering\<close>, which derives the three
  comparisons the class does not define from \<^verbatim>\<open>__lt__\<close>:
  \<^verbatim>\<open>a <= b\<close> is \<^verbatim>\<open>a < b or a == b\<close>, \<^verbatim>\<open>a > b\<close> is
  \<^verbatim>\<open>not a < b and a != b\<close>, and \<^verbatim>\<open>a >= b\<close> is \<^verbatim>\<open>not a < b\<close>.
\<close>

definition CalendarDate_le :: "CalendarDate \<Rightarrow> pyobj \<Rightarrow> py_error + bool" where
  "CalendarDate_le self other =
     (case CalendarDate_lt self other of
        Inl e \<Rightarrow> Inl e
      | Inr r \<Rightarrow> if r then Inr True else CalendarDate_eq self other)"

definition CalendarDate_gt :: "CalendarDate \<Rightarrow> pyobj \<Rightarrow> py_error + bool" where
  "CalendarDate_gt self other =
     (case CalendarDate_lt self other of
        Inl e \<Rightarrow> Inl e
      | Inr r \<Rightarrow> if r then Inr False else CalendarDate_ne self other)"

definition CalendarDate_ge :: "CalendarDate \<Rightarrow> pyobj \<Rightarrow> py_error + bool" where
  "CalendarDate_ge self other =
     (case CalendarDate_lt self other of Inl e \<Rightarrow> Inl e | Inr r \<Rightarrow> Inr (\<not> r))"

text \<open>\<^verbatim>\<open>return self.date.year * 384 + self.date.month * 32 + self.date.day\<close>\<close>

definition CalendarDate_hash :: "CalendarDate \<Rightarrow> int" where
  "CalendarDate_hash self = year (date self) * 384 + month (date self) * 32 + day (date self)"

text \<open>
  \<^verbatim>\<open>range\<close> is a generator:
  \<^verbatim>\<open>cursor = start; while cursor < end: yield cursor; cursor = cursor.next_day()\<close>.
  The result is the list of the values yielded, with the exception that ended the
  iteration, if one did; a loop that never ends has no result (\<open>None\<close>).
\<close>

partial_function (option)
  CalendarDate_range :: "CalendarDate \<Rightarrow> pyobj \<Rightarrow> (CalendarDate list \<times> py_error option) option"
where
  "CalendarDate_range cursor end =
     (case CalendarDate_lt cursor end of
        Inl e \<Rightarrow> Some ([], Some e)
      | Inr continue \<Rightarrow>
          if \<not> continue then Some ([], None)
          else (case next_day cursor 1 of
                  Inl e \<Rightarrow> Some ([cursor], Some e)
                | Inr cursor' \<Rightarrow>
                    Option.bind (CalendarDate_range cursor' end)
                      (\<lambda>(yielded, exc). Some (cursor # yielded, exc))))"

declare CalendarDate_range.simps [code]

subsection \<open>The private helpers\<close>

text \<open>
  \<^verbatim>\<open>_generic_eq\<close>: the loop over \<^verbatim>\<open>zip(a_ids, b_ids)\<close> returns at the first pair
  that differs.
\<close>

fun generic_eq :: "pyval list \<Rightarrow> pyval list \<Rightarrow> bool" where
  "generic_eq (a_id # a_ids) (b_id # b_ids) =
     (if py_ne a_id b_id then False else generic_eq a_ids b_ids)"
| "generic_eq _ _ = True"

text \<open>
  \<^verbatim>\<open>_generic_hash\<close>: \<^verbatim>\<open>h = 0; for myid in ids: h += myid.__hash__(); h *= 97\<close>.
  The hash of a string is seeded anew by every interpreter, so the hash of a value is a
  parameter \<open>hashf\<close>. Python's integers are unbounded: nothing wraps.
\<close>

fun generic_hash_loop :: "(pyval \<Rightarrow> int) \<Rightarrow> int \<Rightarrow> pyval list \<Rightarrow> int" where
  "generic_hash_loop hashf h [] = h"
| "generic_hash_loop hashf h (myid # ids) = generic_hash_loop hashf ((h + hashf myid) * 97) ids"

definition generic_hash :: "(pyval \<Rightarrow> int) \<Rightarrow> pyval list \<Rightarrow> int" where
  "generic_hash hashf ids = generic_hash_loop hashf 0 ids"

text \<open>
  \<^verbatim>\<open>_public_vars\<close>, applied to the instance dictionary \<^verbatim>\<open>vars(obj)\<close>:
  \<^verbatim>\<open>{k: v for k, v in vars(obj).items() if k[0] != '_' and isinstance(v, PRIMITIVE_TYPES)}\<close>
  with \<^verbatim>\<open>PRIMITIVE_TYPES = (str, int, float, bool)\<close>.
  \<^verbatim>\<open>k[0]\<close> raises \<^verbatim>\<open>IndexError\<close> on the empty name.
\<close>

definition is_primitive :: "pyval \<Rightarrow> bool" where
  "is_primitive v = (case v of PyStr _ \<Rightarrow> True | PyInt _ \<Rightarrow> True | PyFloat _ \<Rightarrow> True
                     | PyBool _ \<Rightarrow> True | _ \<Rightarrow> False)"

definition public_vars :: "(string \<rightharpoonup> pyval) \<Rightarrow> py_error + (string \<rightharpoonup> pyval)" where
  "public_vars vars =
     (if vars [] \<noteq> None then Inl IndexError
      else Inr (\<lambda>k. case vars k of
                      None \<Rightarrow> None
                    | Some v \<Rightarrow> if hd k \<noteq> CHR ''_'' \<and> is_primitive v then Some v else None))"

subsection \<open>Construction with extra named fields\<close>

text \<open>
  \<^verbatim>\<open>setattr(self, key, value)\<close> on an instance of a plain class stores the value in
  the instance dictionary, except for the three names the class \<^verbatim>\<open>object\<close> manages
  itself: \<^verbatim>\<open>__class__\<close> and \<^verbatim>\<open>__dict__\<close> refuse a value of the kinds above, and
  \<^verbatim>\<open>__weakref__\<close> cannot be written.
\<close>

definition py_setattr :: "(string \<rightharpoonup> pyval) \<Rightarrow> string \<Rightarrow> pyval \<Rightarrow> py_error + (string \<rightharpoonup> pyval)" where
  "py_setattr dict key v =
     (if key = ''__class__'' \<or> key = ''__dict__'' then Inl TypeError
      else if key = ''__weakref__'' then Inl (AttributeError key)
      else Inr (dict(key \<mapsto> v)))"

text \<open>\<^verbatim>\<open>for key in kwargs: setattr(self, key, kwargs[key])\<close>, in the order of the dictionary.\<close>

fun set_extras :: "(string \<rightharpoonup> pyval) \<Rightarrow> (string \<times> pyval) list \<Rightarrow> py_error + (string \<rightharpoonup> pyval)" where
  "set_extras dict [] = Inr dict"
| "set_extras dict ((key, v) # kwargs) =
     (case py_setattr dict key v of
        Inl e \<Rightarrow> Inl e
      | Inr dict' \<Rightarrow> set_extras dict' kwargs)"

text \<open>
  A call binds a keyword that names a parameter to that parameter, so \<^verbatim>\<open>kwargs\<close> never
  holds such a name: passing one besides the positional arguments is a \<^verbatim>\<open>TypeError\<close>
  of the call, as is any keyword passed to a constructor without \<^verbatim>\<open>**kwargs\<close>.
\<close>

definition binds_parameter :: "string list \<Rightarrow> (string \<times> pyval) list \<Rightarrow> bool" where
  "binds_parameter params kwargs = list_ex (\<lambda>(key, v). key \<in> set params) kwargs"

text \<open>Reading an attribute of an instance from its dictionary.\<close>

definition getattr_vars :: "(string \<rightharpoonup> pyval) \<Rightarrow> string \<Rightarrow> py_error + pyval" where
  "getattr_vars vars name = (case vars name of None \<Rightarrow> Inl (AttributeError name) | Some v \<Rightarrow> Inr v)"

text \<open>
  \<^verbatim>\<open>__repr__\<close> formats the class name, the identifiers and \<^verbatim>\<open>_public_vars(self)\<close>
  into one string. The representation is kept as these three parts.
\<close>

type_synonym repr = "string \<times> pyval list \<times> (string \<rightharpoonup> pyval)"

definition make_repr :: "string \<Rightarrow> pyval list \<Rightarrow> (string \<rightharpoonup> pyval) \<Rightarrow> py_error + repr" where
  "make_repr name ids vars =
     (case public_vars vars of Inl e \<Rightarrow> Inl e | Inr shown \<Rightarrow> Inr (name, ids, shown))"

paragraph \<open>FeedInfo and Calendar\<close>

definition FeedInfo_init :: "pyval \<Rightarrow> (string \<times> pyval) list \<Rightarrow> py_error + FeedInfo" where
  "FeedInfo_init feed_id' kwargs =
     (if kwargs \<noteq> [] then Inl TypeError else Inr \<lparr>FeedInfo.feed_id = feed_id'\<rparr>)"

definition Calendar_init :: "pyval \<Rightarrow> pyval \<Rightarrow> (string \<times> pyval) list \<Rightarrow> py_error + Calendar" where
  "Calendar_init feed_id' service_id' kwargs =
     (if kwargs \<noteq> [] then Inl TypeError
      else Inr \<lparr>Calendar.feed_id = feed_id', Calendar.service_id = service_id'\<rparr>)"

definition CalendarDate_new :: "date \<Rightarrow> (string \<times> pyval) list \<Rightarrow> py_error + CalendarDate" where
  "CalendarDate_new dt kwargs = (if kwargs \<noteq> [] then Inl TypeError else Inr (CalendarDate_init dt))"

paragraph \<open>Agency\<close>

definition Agency_params :: "string list" where
  "Agency_params = [''self'', ''feed_id'', ''agency_id'', ''agency_name'', ''agency_url'',
     ''agency_timezone'']"

definition Agency_init ::
  "pyval \<Rightarrow> pyval \<Rightarrow> pyval \<Rightarrow> pyval \<Rightarrow> pyval \<Rightarrow> (string \<times> pyval) list \<Rightarrow> py_error + Agency" where
  "Agency_init feed_id' agency_id' agency_name' agency_url' agency_timezone' kwargs =
     (if binds_parameter Agency_params kwargs then Inl TypeError
      else case set_extras Map.empty kwargs of
             Inl e \<Rightarrow> Inl e
           | Inr ex \<Rightarrow> Inr \<lparr>Agency.feed_id = feed_id', Agency.agency_id = agency_id',
                            agency_name = agency_name', agency_url = agency_url',
                            agency_timezone = agency_timezone', Agency.extras = ex\<rparr>)"

definition Agency_vars :: "Agency \<Rightarrow> (string \<rightharpoonup> pyval)" where
  "Agency_vars self =
     [''feed_id'' \<mapsto> Agency.feed_id self, ''agency_id'' \<mapsto> Agency.agency_id self,
      ''agency_name'' \<mapsto> agency_name self, ''agency_url'' \<mapsto> agency_url self,
      ''agency_timezone'' \<mapsto> agency_timezone self] ++ Agency.extras self"

definition Agency_repr :: "Agency \<Rightarrow> py_error + repr" where
  "Agency_repr self =
     make_repr ''Agency'' [Agency.feed_id self, Agency.agency_id self] (Agency_vars self)"

paragraph \<open>Stop\<close>

definition TYPE_STOP :: pyval where "TYPE_STOP = PyInt 0"
definition TYPE_STATION :: pyval where "TYPE_STATION = PyInt 1"
definition Stop_WHEELCHAIR_UNKNOWN :: pyval where "Stop_WHEELCHAIR_UNKNOWN = PyInt 0"
definition Stop_WHEELCHAIR_YES :: pyval where "Stop_WHEELCHAIR_YES = PyInt 1"
definition Stop_WHEELCHAIR_NO :: pyval where "Stop_WHEELCHAIR_NO = PyInt 2"

definition Stop_params :: "string list" where
  "Stop_params = [''self'', ''feed_id'', ''stop_id'', ''stop_name'', ''stop_lat'', ''stop_lon'',
     ''location_type'', ''parent_station_id'', ''wheelchair_boarding'']"

text \<open>An optional parameter that the call leaves out is \<open>None\<close> and takes its default.\<close>

definition Stop_init ::
  "pyval \<Rightarrow> pyval \<Rightarrow> pyval \<Rightarrow> pyval \<Rightarrow> pyval \<Rightarrow> pyval option \<Rightarrow> pyval option \<Rightarrow> pyval option
     \<Rightarrow> (string \<times> pyval) list \<Rightarrow> py_error + Stop" where
  "Stop_init feed_id' stop_id' stop_name' stop_lat' stop_lon' location_type' parent_station_id'
       wheelchair_boarding' kwargs =
     (if binds_parameter Stop_params kwargs then Inl TypeError
      else case set_extras Map.empty kwargs of
             Inl e \<Rightarrow> Inl e
           | Inr ex \<Rightarrow>
               Inr \<lparr>Stop.feed_id = feed_id', Stop.stop_id = stop_id',
                    location_type = (case location_type' of None \<Rightarrow> TYPE_STOP | Some v \<Rightarrow> v),
                    stop_name = stop_name', stop_lat = stop_lat', stop_lon = stop_lon',
                    parent_station_id = (case parent_station_id' of None \<Rightarrow> PyNone | Some v \<Rightarrow> v),
                    wheelchair_boarding =
                      (case wheelchair_boarding' of None \<Rightarrow> Stop_WHEELCHAIR_UNKNOWN | Some v \<Rightarrow> v),
                    Stop.extras = ex\<rparr>)"

definition Stop_vars :: "Stop \<Rightarrow> (string \<rightharpoonup> pyval)" where
  "Stop_vars self =
     [''feed_id'' \<mapsto> Stop.feed_id self, ''stop_id'' \<mapsto> Stop.stop_id self,
      ''location_type'' \<mapsto> location_type self, ''stop_name'' \<mapsto> stop_name self,
      ''stop_lat'' \<mapsto> stop_lat self, ''stop_lon'' \<mapsto> stop_lon self,
      ''parent_station_id'' \<mapsto> parent_station_id self,
      ''wheelchair_boarding'' \<mapsto> wheelchair_boarding self] ++ Stop.extras self"

definition Stop_repr :: "Stop \<Rightarrow> py_error + repr" where
  "Stop_repr self = make_repr ''Stop'' [Stop.feed_id self, Stop.stop_id self] (Stop_vars self)"

paragraph \<open>Route\<close>

definition TYPE_BUS :: pyval where "TYPE_BUS = PyInt 3"

definition Route_params :: "string list" where
  "Route_params = [''self'', ''feed_id'', ''route_id'', ''agency_id'', ''route_type'']"

definition Route_init ::
  "pyval \<Rightarrow> pyval \<Rightarrow> pyval \<Rightarrow> pyval \<Rightarrow> (string \<times> pyval) list \<Rightarrow> py_error + Route" where
  "Route_init feed_id' route_id' agency_id' route_type' kwargs =
     (if binds_parameter Route_params kwargs then Inl TypeError
      else case set_extras Map.empty kwargs of
             Inl e \<Rightarrow> Inl e
           | Inr ex \<Rightarrow> Inr \<lparr>Route.feed_id = feed_id', Route.route_id = route_id',
                            Route.agency_id = agency_id', route_type = route_type',
                            Route.extras = ex\<rparr>)"

definition Route_vars :: "Route \<Rightarrow> (string \<rightharpoonup> pyval)" where
  "Route_vars self =
     [''feed_id'' \<mapsto> Route.feed_id self, ''route_id'' \<mapsto> Route.route_id self,
      ''agency_id'' \<mapsto> Route.agency_id self, ''route_type'' \<mapsto> route_type self]
     ++ Route.extras self"

definition Route_repr :: "Route \<Rightarrow> py_error + repr" where
  "Route_repr self = make_repr ''Route'' [Route.feed_id self, Route.route_id self] (Route_vars self)"

paragraph \<open>Trip\<close>

definition Trip_WHEELCHAIR_UNKNOWN :: pyval where "Trip_WHEELCHAIR_UNKNOWN = PyInt 0"
definition Trip_WHEELCHAIR_YES :: pyval where "Trip_WHEELCHAIR_YES = PyInt 1"
definition Trip_WHEELCHAIR_NO :: pyval where "Trip_WHEELCHAIR_NO = PyInt 2"
definition BIKES_UNKNOWN :: pyval where "BIKES_UNKNOWN = PyInt 0"
definition BIKES_YES :: pyval where "BIKES_YES = PyInt 1"
definition BIKES_NO :: pyval where "BIKES_NO = PyInt 2"
definition TIME_APPROX :: pyval where "TIME_APPROX = PyInt 0"
definition TIME_EXACT :: pyval where "TIME_EXACT = PyInt 1"

definition Trip_params :: "string list" where
  "Trip_params = [''self'', ''feed_id'', ''trip_id'', ''route_id'', ''service_id'',
     ''wheelchair_accessible'', ''bikes_allowed'', ''exact_times'']"

definition Trip_init ::
  "pyval \<Rightarrow> pyval \<Rightarrow> pyval \<Rightarrow> pyval \<Rightarrow> pyval option \<Rightarrow> pyval option \<Rightarrow> pyval option
     \<Rightarrow> (string \<times> pyval) list \<Rightarrow> py_error + Trip" where
  "Trip_init feed_id' trip_id' route_id' service_id' wheelchair_accessible' bikes_allowed'
       exact_times' kwargs =
     (if binds_parameter Trip_params kwargs then Inl TypeError
      else case set_extras Map.empty kwargs of
             Inl e \<Rightarrow> Inl e
           | Inr ex \<Rightarrow>
               Inr \<lparr>Trip.feed_id = feed_id', Trip.trip_id = trip_id', Trip.route_id = route_id',
                    Trip.service_id = service_id',
                    wheelchair_accessible =
                      (case wheelchair_accessible' of None \<Rightarrow> Trip_WHEELCHAIR_UNKNOWN | Some v \<Rightarrow> v),
                    bikes_allowed = (case bikes_allowed' of None \<Rightarrow> BIKES_UNKNOWN | Some v \<Rightarrow> v),
                    exact_times = (case exact_times' of None \<Rightarrow> TIME_EXACT | Some v \<Rightarrow> v),
                    Trip.extras = ex, stop_times = None\<rparr>)"

text \<open>
  The attached \<^verbatim>\<open>stop_times\<close> is a list, no primitive value: \<^verbatim>\<open>_public_vars\<close>
  drops it, so the dictionary below leaves it out.
\<close>

definition Trip_vars :: "Trip \<Rightarrow> (string \<rightharpoonup> pyval)" where
  "Trip_vars self =
     [''feed_id'' \<mapsto> Trip.feed_id self, ''trip_id'' \<mapsto> Trip.trip_id self,
      ''route_id'' \<mapsto> Trip.route_id self, ''service_id'' \<mapsto> Trip.service_id self,
      ''wheelchair_accessible'' \<mapsto> wheelchair_accessible self,
      ''bikes_allowed'' \<mapsto> bikes_allowed self, ''exact_times'' \<mapsto> exact_times self]
     ++ Trip.extras self"

definition Trip_repr :: "Trip \<Rightarrow> py_error + repr" where
  "Trip_repr self = make_repr ''Trip'' [Trip.feed_id self, Trip.trip_id self] (Trip_vars self)"

subsection \<open>\<^verbatim>\<open>StopTime\<close>\<close>

definition PICKUP_DROPOFF_REGULAR :: pyval where "PICKUP_DROPOFF_REGULAR = PyInt 0"
definition PICKUP_DROPOFF_NONE :: pyval where "PICKUP_DROPOFF_NONE = PyInt 1"
definition PICKUP_DROPOFF_PHONE :: pyval where "PICKUP_DROPOFF_PHONE = PyInt 2"
definition PICKUP_DROPOFF_ASKDRIVER :: pyval where "PICKUP_DROPOFF_ASKDRIVER = PyInt 3"
definition TIMEPOINT_APPROX :: pyval where "TIMEPOINT_APPROX = PyInt 0"
definition TIMEPOINT_EXACT :: pyval where "TIMEPOINT_EXACT = PyInt 1"

definition StopTime_params :: "string list" where
  "StopTime_params = [''self'', ''feed_id'', ''trip_id'', ''stop_id'', ''stop_sequence'',
     ''arrival_time'', ''departure_time'', ''shape_dist_traveled'', ''interpolated'',
     ''timepoint'', ''pickup_type'', ''dropoff_type'']"

definition StopTime_init ::
  "pyval \<Rightarrow> pyval \<Rightarrow> pyval \<Rightarrow> pyval \<Rightarrow> pyval \<Rightarrow> pyval \<Rightarrow> pyval
     \<Rightarrow> pyval option \<Rightarrow> pyval option \<Rightarrow> pyval option \<Rightarrow> pyval option
     \<Rightarrow> (string \<times> pyval) list \<Rightarrow> py_error + StopTime" where
  "StopTime_init feed_id' trip_id' stop_id' stop_sequence' arrival_time' departure_time'
       shape_dist_traveled' interpolated' timepoint' pickup_type' dropoff_type' kwargs =
     (if binds_parameter StopTime_params kwargs then Inl TypeError
      else case set_extras Map.empty kwargs of
             Inl e \<Rightarrow> Inl e
           | Inr ex \<Rightarrow>
               Inr \<lparr>StopTime.feed_id = feed_id', StopTime.trip_id = trip_id',
                    StopTime.stop_id = stop_id', stop_sequence = stop_sequence',
                    arrival_time = arrival_time', departure_time = departure_time',
                    interpolated = (case interpolated' of None \<Rightarrow> PyBool False | Some v \<Rightarrow> v),
                    shape_dist_traveled = shape_dist_traveled',
                    timepoint = (case timepoint' of None \<Rightarrow> TIMEPOINT_EXACT | Some v \<Rightarrow> v),
                    pickup_type = (case pickup_type' of None \<Rightarrow> PICKUP_DROPOFF_REGULAR | Some v \<Rightarrow> v),
                    dropoff_type = (case dropoff_type' of None \<Rightarrow> PICKUP_DROPOFF_REGULAR | Some v \<Rightarrow> v),
                    StopTime.extras = ex\<rparr>)"

definition StopTime_vars :: "StopTime \<Rightarrow> (string \<rightharpoonup> pyval)" where
  "StopTime_vars self =
     [''feed_id'' \<mapsto> StopTime.feed_id self, ''trip_id'' \<mapsto> StopTime.trip_id self,
      ''stop_id'' \<mapsto> StopTime.stop_id self, ''stop_sequence'' \<mapsto> stop_sequence self,
      ''arrival_time'' \<mapsto> arrival_time self, ''departure_time'' \<mapsto> departure_time self,
      ''interpolated'' \<mapsto> interpolated self,
      ''shape_dist_traveled'' \<mapsto> shape_dist_traveled self,
      ''timepoint'' \<mapsto> timepoint self, ''pickup_type'' \<mapsto> pickup_type self,
      ''dropoff_type'' \<mapsto> dropoff_type self] ++ StopTime.extras self"

definition StopTime_repr :: "StopTime \<Rightarrow> py_error + repr" where
  "StopTime_repr self =
     make_repr ''StopTime''
       [StopTime.feed_id self, StopTime.trip_id self, stop_sequence self] (StopTime_vars self)"

text \<open>
  \<^verbatim>\<open>other.stop_sequence\<close>: the attribute of a stop time, or an extra of that name on
  an instance of another class of the module; no other value has such an attribute.
\<close>

definition get_stop_sequence :: "pyobj \<Rightarrow> py_error + pyval" where
  "get_stop_sequence other =
     (case other of
        StopTimeObj st \<Rightarrow> Inr (stop_sequence st)
      | AgencyObj a \<Rightarrow> getattr_vars (Agency_vars a) ''stop_sequence''
      | StopObj s \<Rightarrow> getattr_vars (Stop_vars s) ''stop_sequence''
      | RouteObj r \<Rightarrow> getattr_vars (Route_vars r) ''stop_sequence''
      | TripObj t \<Rightarrow> getattr_vars (Trip_vars t) ''stop_sequence''
      | _ \<Rightarrow> Inl (AttributeError ''stop_sequence''))"

text \<open>\<^verbatim>\<open>return self.stop_sequence < other.stop_sequence\<close>\<close>

definition StopTime_lt :: "StopTime \<Rightarrow> pyobj \<Rightarrow> py_error + bool" where
  "StopTime_lt self other =
     (case get_stop_sequence other of
        Inl e \<Rightarrow> Inl e
      | Inr seq \<Rightarrow> py_lt (stop_sequence self) seq)"

definition primary_keys :: "StopTime \<Rightarrow> pyval list" where
  "primary_keys self =
     [StopTime.feed_id self, StopTime.trip_id self, StopTime.stop_id self, stop_sequence self]"

definition isinstance_StopTime :: "pyobj \<Rightarrow> bool" where
  "isinstance_StopTime other = (case other of StopTimeObj _ \<Rightarrow> True | _ \<Rightarrow> False)"

text \<open>
  \<^verbatim>\<open>if not isinstance(other, StopTime): return False\<close>, then
  \<^verbatim>\<open>return _generic_eq(self._primary_keys(), other._primary_keys())\<close>.
\<close>

definition StopTime_eq :: "StopTime \<Rightarrow> pyobj \<Rightarrow> py_error + bool" where
  "StopTime_eq self other =
     (case other of
        StopTimeObj st \<Rightarrow> Inr (generic_eq (primary_keys self) (primary_keys st))
      | _ \<Rightarrow> Inr False)"

definition StopTime_hash :: "(pyval \<Rightarrow> int) \<Rightarrow> StopTime \<Rightarrow> int" where
  "StopTime_hash hashf self = generic_hash hashf (primary_keys self)"

subsection \<open>\<^verbatim>\<open>Trip.hops\<close>\<close>

text \<open>
  \<^verbatim>\<open>return zip(self.stop_times[0:], self.stop_times[1:])\<close>.
  A slice \<^verbatim>\<open>xs[k:]\<close> of a list drops its first \<open>k\<close> elements and never fails;
  \<^verbatim>\<open>zip\<close> stops at the end of the shorter argument. The pairs are given as the list
  the iterator produces.
\<close>

definition hops :: "Trip \<Rightarrow> py_error + (StopTime \<times> StopTime) list" where
  "hops self =
     (case stop_times self of
        None \<Rightarrow> Inl (AttributeError ''stop_times'')
      | Some sts \<Rightarrow> Inr (zip (drop 0 sts) (drop 1 sts)))"

subsection \<open>Sample records\<close>

text \<open>A stop time of trip \<open>T1\<close> at position \<open>n\<close>, and the trip with three of them attached.\<close>

definition sample_stop_time :: "string \<Rightarrow> int \<Rightarrow> StopTime" where
  "sample_stop_time stop n =
     \<lparr>StopTime.feed_id = PyStr ''F'', StopTime.trip_id = PyStr ''T1'',
      StopTime.stop_id = PyStr stop, stop_sequence = PyInt n,
      arrival_time = PyInt (3600 * n), departure_time = PyInt (3600 * n + 60),
      interpolated = PyBool False, shape_dist_traveled = PyNone,
      timepoint = TIMEPOINT_EXACT, pickup_type = PICKUP_DROPOFF_REGULAR,
      dropoff_type = PICKUP_DROPOFF_REGULAR, StopTime.extras = Map.empty\<rparr>"

text \<open>The calendar date of a given day, as \<^verbatim>\<open>CalendarDate.ymd\<close> builds it.\<close>

definition sample_day :: "int \<Rightarrow> int \<Rightarrow> int \<Rightarrow> CalendarDate" where
  "sample_day y m d = CalendarDate_init \<lparr>year = y, month = m, day = d\<rparr>"

definition sample_trip :: Trip where
  "sample_trip =
     \<lparr>Trip.feed_id = PyStr ''F'', Trip.trip_id = PyStr ''T1'', Trip.route_id = PyStr ''R'',
      Trip.service_id = PyStr ''WEEK'', wheelchair_accessible = Trip_WHEELCHAIR_UNKNOWN,
      bikes_allowed = BIKES_UNKNOWN, exact_times = TIME_EXACT, Trip.extras = Map.empty,
      stop_times = Some [sample_stop_time ''A'' 1, sample_stop_time ''B'' 2,
                         sample_stop_time ''C'' 3]\<rparr>"

text \<open>A hash of values that agrees on equal values, as Python's does.\<close>

definition sample_hash :: "pyval \<Rightarrow> int" where
  "sample_hash v = (case v of PyStr s \<Rightarrow> int (length s) + 1 | _ \<Rightarrow> 0)"

section \<open>Theorems\<close>

subsection \<open>The calendar arithmetic\<close>

text \<open>
  The two conversions between dates and ordinals are inverse to each other on the dates of
  the calendar, and the order of dates is the order of their ordinals.
\<close>

lemma days_before_year_decomp:
  assumes "0 \<le> b" "b \<le> 3" "0 \<le> c" "c \<le> 24" "0 \<le> e" "e \<le> 3"
  shows "days_before_year (400 * a + 100 * b + 4 * c + e + 1)
           = 146097 * a + 36524 * b + 1461 * c + 365 * e"
proof -
  let ?y = "400 * a + 100 * b + 4 * c + e"
  have d4: "?y div 4 = 100 * a + 25 * b + c"
    using assms by linarith
  have d100: "?y div 100 = 4 * a + b"
    using assms by linarith
  have d400: "?y div 400 = a"
    using assms by linarith
  show ?thesis
    unfolding days_before_year_def Let_def
    using d4 d100 d400 by simp
qed

lemma is_leap_decomp:
  assumes "0 \<le> b" "b \<le> 3" "0 \<le> c" "c \<le> 24" "0 \<le> e" "e \<le> 3"
  shows "is_leap (400 * a + 100 * b + 4 * c + e + 1) \<longleftrightarrow> e = 3 \<and> (c \<noteq> 24 \<or> b = 3)"
proof -
  let ?y = "400 * a + 100 * b + 4 * c + e + 1"
  have mod_div: "\<And>k. ?y mod k = ?y - ?y div k * k"
    by (simp add: minus_div_mult_eq_mod)
  have d4: "e = 3 \<Longrightarrow> ?y div 4 = 100 * a + 25 * b + c + 1"
    by linarith
  have d4': "e \<noteq> 3 \<Longrightarrow> ?y div 4 = 100 * a + 25 * b + c"
    using assms by linarith
  have m4: "?y mod 4 = 0 \<longleftrightarrow> e = 3"
    using assms d4 d4' mod_div [of 4] by (cases "e = 3") simp_all
  have d100: "e = 3 \<Longrightarrow> c = 24 \<Longrightarrow> ?y div 100 = 4 * a + b + 1"
    by linarith
  have d100': "\<not> (e = 3 \<and> c = 24) \<Longrightarrow> ?y div 100 = 4 * a + b"
    using assms by linarith
  have m100: "?y mod 100 = 0 \<longleftrightarrow> e = 3 \<and> c = 24"
  proof (cases "e = 3 \<and> c = 24")
    case True
    then show ?thesis using d100 mod_div [of 100] by simp
  next
    case False
    then have "?y mod 100 = 100 * b + 4 * c + e + 1 - 100 * b"
      using d100' mod_div [of 100] by simp
    then show ?thesis using False assms by auto
  qed
  have d400: "e = 3 \<Longrightarrow> c = 24 \<Longrightarrow> b = 3 \<Longrightarrow> ?y div 400 = a + 1"
    by linarith
  have d400': "\<not> (e = 3 \<and> c = 24 \<and> b = 3) \<Longrightarrow> ?y div 400 = a"
    using assms by linarith
  have m400: "?y mod 400 = 0 \<longleftrightarrow> e = 3 \<and> c = 24 \<and> b = 3"
  proof (cases "e = 3 \<and> c = 24 \<and> b = 3")
    case True
    then show ?thesis using d400 mod_div [of 400] by simp
  next
    case False
    then have "?y mod 400 = 100 * b + 4 * c + e + 1"
      using d400' mod_div [of 400] by simp
    then show ?thesis using False assms by auto
  qed
  show ?thesis
    unfolding is_leap_def using m4 m100 m400 by auto
qed

lemma month_day_of_all:
  "\<forall>n \<in> {0..364}. \<forall>leap \<in> {True, False}.
     (case month_day_of leap n of (m, d) \<Rightarrow>
        1 \<le> m \<and> m \<le> 12 \<and> 1 \<le> d
        \<and> d \<le> (if m = 2 \<and> leap then 29 else DAYS_IN_MONTH ! nat m)
        \<and> DAYS_BEFORE_MONTH ! nat m + (if m > 2 \<and> leap then 1 else 0) + d = n + 1)"
  by code_simp

lemma month_day_of_correct:
  assumes "0 \<le> n" "n \<le> 364" "month_day_of (is_leap y) n = (m, d)"
  shows "1 \<le> m \<and> m \<le> 12 \<and> 1 \<le> d \<and> d \<le> days_in_month y m
         \<and> days_before_month y m + d = n + 1"
proof -
  have "n \<in> {0..364}" "is_leap y \<in> {True, False}"
    using assms by auto
  from month_day_of_all [rule_format, OF this] assms(3)
  show ?thesis
    by (simp add: days_in_month_def days_before_month_def)
qed

lemma year_bound:
  fixes a b c e r :: int
  assumes le: "146097 * a + 36524 * b + 1461 * c + 365 * e + r + 1 \<le> 3652059"
    and bounds: "0 \<le> b" "b \<le> 3" "0 \<le> c" "c \<le> 24" "0 \<le> e" "e \<le> 3" "0 \<le> r"
  shows "400 * a + 100 * b + 4 * c + e + 1 \<le> 9999"
proof (cases "a \<le> 23")
  case True
  then show ?thesis using bounds by linarith
next
  case False
  then have a24: "24 \<le> a" by simp
  have "146097 * a \<le> 3652058" using le bounds by linarith
  then have "a \<le> 24" by linarith
  then have a: "a = 24" using a24 by simp
  have rest: "36524 * b + 1461 * c + 365 * e + r \<le> 145730"
    using le unfolding a by simp
  show ?thesis
  proof (cases "b \<le> 2")
    case True
    then show ?thesis using bounds a by simp
  next
    case False
    then have b: "b = 3" using bounds by simp
    have rest2: "1461 * c + 365 * e + r \<le> 36158"
      using rest unfolding b by simp
    show ?thesis
    proof (cases "c \<le> 23")
      case True
      then show ?thesis using bounds a b by simp
    next
      case False
      then have c: "c = 24" using bounds by simp
      have "365 * e \<le> 1094" using rest2 bounds unfolding c by simp
      then have "e \<le> 2" by linarith
      then show ?thesis using a b c by simp
    qed
  qed
qed

lemma ymd_ok_general:
  assumes n: "n = 146097 * a + 36524 * b + 1461 * c + 365 * e + r + 1"
    and le: "n \<le> MAXORDINAL"
    and bounds: "0 \<le> a" "0 \<le> b" "b \<le> 3" "0 \<le> c" "c \<le> 24" "0 \<le> e" "e \<le> 3"
      "0 \<le> r" "r \<le> 364"
    and y: "y = 400 * a + 100 * b + 4 * c + e + 1"
    and md: "month_day_of (e = 3 \<and> (c \<noteq> 24 \<or> b = 3)) r = (m, d)"
  shows "MINYEAR \<le> y \<and> y \<le> MAXYEAR \<and> 1 \<le> m \<and> m \<le> 12 \<and> 1 \<le> d \<and> d \<le> days_in_month y m
         \<and> ymd2ord y m d = n"
proof -
  have leap: "is_leap y \<longleftrightarrow> e = 3 \<and> (c \<noteq> 24 \<or> b = 3)"
    unfolding y using bounds(2-7) by (rule is_leap_decomp)
  have dby: "days_before_year y = 146097 * a + 36524 * b + 1461 * c + 365 * e"
    unfolding y using bounds(2-7) by (rule days_before_year_decomp)
  have "month_day_of (is_leap y) r = (m, d)"
    using md leap by simp
  with bounds(8,9) have month: "1 \<le> m \<and> m \<le> 12 \<and> 1 \<le> d \<and> d \<le> days_in_month y m
         \<and> days_before_month y m + d = r + 1"
    by (rule month_day_of_correct)
  have "y \<le> 9999"
    unfolding y using le bounds(2-8) unfolding n MAXORDINAL_def by (rule year_bound)
  moreover have "1 \<le> y"
    unfolding y using bounds by linarith
  moreover have "ymd2ord y m d = n"
    unfolding ymd2ord_def dby n using month by linarith
  ultimately show ?thesis
    using month by (simp add: MINYEAR_def MAXYEAR_def)
qed

lemma ymd_ok_year_end:
  assumes n: "n = 146097 * a + 36524 * b + 1461 * c + 1461"
    and le: "n \<le> MAXORDINAL"
    and bounds: "0 \<le> a" "0 \<le> b" "b \<le> 3" "0 \<le> c" "c \<le> 24"
    and wrap: "c = 24 \<longrightarrow> b = 3"
    and y: "y = 400 * a + 100 * b + 4 * c + 3 + 1"
  shows "MINYEAR \<le> y \<and> y \<le> MAXYEAR \<and> (1::int) \<le> 12 \<and> (12::int) \<le> 12 \<and> (1::int) \<le> 31
         \<and> 31 \<le> days_in_month y 12 \<and> ymd2ord y 12 31 = n"
proof -
  have e: "(0::int) \<le> 3" "(3::int) \<le> 3" by simp_all
  have leap: "is_leap y"
    unfolding y using is_leap_decomp [OF bounds(2-5) e, of a] wrap by simp
  have dby: "days_before_year y = 146097 * a + 36524 * b + 1461 * c + 365 * 3"
    unfolding y using bounds(2-5) e by (rule days_before_year_decomp)
  have "146097 * a + 36524 * b + 1461 * c + 365 * 3 + 365 + 1 \<le> 3652059"
    using le unfolding n MAXORDINAL_def by simp
  then have "y \<le> 9999"
    unfolding y using bounds(2-5) e by (rule year_bound) simp
  moreover have "1 \<le> y"
    unfolding y using bounds by linarith
  moreover have "days_before_month y 12 = 335"
    using leap by (simp add: days_before_month_def DAYS_BEFORE_MONTH_def)
  moreover have "days_in_month y 12 = 31"
    by (simp add: days_in_month_def DAYS_IN_MONTH_def)
  ultimately show ?thesis
    by (simp add: ymd2ord_def dby n MINYEAR_def MAXYEAR_def)
qed

lemma ord2ymd_unfold:
  fixes n :: int
  defines "n0 \<equiv> n - 1"
  defines "a \<equiv> n0 div 146097"
  defines "r1 \<equiv> n0 mod 146097"
  defines "b \<equiv> r1 div 36524"
  defines "r2 \<equiv> r1 mod 36524"
  defines "c \<equiv> r2 div 1461"
  defines "r3 \<equiv> r2 mod 1461"
  defines "e \<equiv> r3 div 365"
  defines "r4 \<equiv> r3 mod 365"
  shows "ord2ymd n =
      (if e = 4 \<or> b = 4 then (a * 400 + 1 + b * 100 + c * 4 + e - 1, 12, 31)
       else case month_day_of (e = 3 \<and> (c \<noteq> 24 \<or> b = 3)) r4 of
              (m, d) \<Rightarrow> (a * 400 + 1 + b * 100 + c * 4 + e, m, d))"
  unfolding ord2ymd_def Let_def n0_def a_def r1_def b_def r2_def c_def r3_def e_def r4_def
  by (rule refl)

lemma ord2ymd_correct:
  assumes "1 \<le> n" "n \<le> MAXORDINAL" "ord2ymd n = (y, m, d)"
  shows "MINYEAR \<le> y \<and> y \<le> MAXYEAR \<and> 1 \<le> m \<and> m \<le> 12 \<and> 1 \<le> d \<and> d \<le> days_in_month y m
         \<and> ymd2ord y m d = n"
proof -
  define n0 where "n0 = n - 1"
  define a where "a = n0 div 146097"
  define r1 where "r1 = n0 mod 146097"
  define b where "b = r1 div 36524"
  define r2 where "r2 = r1 mod 36524"
  define c where "c = r2 div 1461"
  define r3 where "r3 = r2 mod 1461"
  define e where "e = r3 div 365"
  define r4 where "r4 = r3 mod 365"
  have n0: "0 \<le> n0"
    using assms(1) by (simp add: n0_def)
  have eq1: "n0 = 146097 * a + r1" and r1: "0 \<le> r1" "r1 < 146097"
    by (simp_all add: a_def r1_def)
  have eq2: "r1 = 36524 * b + r2" and r2: "0 \<le> r2" "r2 < 36524"
    by (simp_all add: b_def r2_def)
  have eq3: "r2 = 1461 * c + r3" and r3: "0 \<le> r3" "r3 < 1461"
    by (simp_all add: c_def r3_def)
  have eq4: "r3 = 365 * e + r4" and r4: "0 \<le> r4" "r4 < 365"
    by (simp_all add: e_def r4_def)
  have a: "0 \<le> a"
    using n0 by (simp add: a_def pos_imp_zdiv_nonneg_iff)
  have b: "0 \<le> b" "b \<le> 4"
    using r1 by (simp_all add: b_def pos_imp_zdiv_nonneg_iff)
  have c: "0 \<le> c" "c \<le> 24"
    using r2 by (simp_all add: c_def pos_imp_zdiv_nonneg_iff)
  have e: "0 \<le> e" "e \<le> 4"
    using r3 by (simp_all add: e_def pos_imp_zdiv_nonneg_iff)
  have unfolded: "ord2ymd n =
      (if e = 4 \<or> b = 4 then (a * 400 + 1 + b * 100 + c * 4 + e - 1, 12, 31)
       else case month_day_of (e = 3 \<and> (c \<noteq> 24 \<or> b = 3)) r4 of
              (m, d) \<Rightarrow> (a * 400 + 1 + b * 100 + c * 4 + e, m, d))"
    unfolding n0_def a_def r1_def b_def r2_def c_def r3_def e_def r4_def
    by (rule ord2ymd_unfold)
  show ?thesis
  proof (cases "b = 4")
    case True
    have "r2 < 1"
      using eq2 r1(2) True by simp
    then have r2z: "r2 = 0"
      using r2(1) by simp
    then have cz: "c = 0" and ez: "e = 0"
      by (simp_all add: c_def e_def r3_def)
    have res: "(y, m, d) = (a * 400 + 1 + 4 * 100 + 0 * 4 + 0 - 1, 12, 31)"
      using unfolded assms(3) True cz ez by (simp only: if_True simp_thms)
    then have y: "y = 400 * a + 100 * 3 + 4 * 24 + 3 + 1" and md: "m = 12" "d = 31"
      by simp_all
    have n: "n = 146097 * a + 36524 * 3 + 1461 * 24 + 1461"
      using eq1 eq2 True r2z by (simp add: n0_def)
    have three: "(0::int) \<le> 3" "(3::int) \<le> 3" "(0::int) \<le> 24" "(24::int) \<le> 24"
      by simp_all
    have "(24::int) = 24 \<longrightarrow> (3::int) = 3"
      by simp
    from ymd_ok_year_end [OF n assms(2) a three this y]
    show ?thesis
      unfolding md by simp
  next
    case b4: False
    then have b3: "b \<le> 3"
      using b by simp
    show ?thesis
    proof (cases "e = 4")
      case True
      have "r4 < 1"
        using eq4 r3(2) True by simp
      then have r4z: "r4 = 0"
        using r4(1) by simp
      have "1461 * c < 35064"
        using eq3 eq4 r2(2) True r4z by simp
      then have c23: "c \<le> 23"
        by linarith
      have res: "(y, m, d) = (a * 400 + 1 + b * 100 + c * 4 + 4 - 1, 12, 31)"
        using unfolded assms(3) True by (simp only: if_True simp_thms)
      then have y: "y = 400 * a + 100 * b + 4 * c + 3 + 1" and md: "m = 12" "d = 31"
        by simp_all
      have n: "n = 146097 * a + 36524 * b + 1461 * c + 1461"
        using eq1 eq2 eq3 eq4 True r4z by (simp add: n0_def)
      have "c = 24 \<longrightarrow> b = 3"
        using c23 by simp
      from ymd_ok_year_end [OF n assms(2) a b(1) b3 c this y]
      show ?thesis
        unfolding md by simp
    next
      case False
      then have e3: "e \<le> 3"
        using e by simp
      obtain m' d' where md: "month_day_of (e = 3 \<and> (c \<noteq> 24 \<or> b = 3)) r4 = (m', d')"
        by (cases "month_day_of (e = 3 \<and> (c \<noteq> 24 \<or> b = 3)) r4")
      have "ord2ymd n = (a * 400 + 1 + b * 100 + c * 4 + e, m', d')"
        using unfolded False b4 md by simp
      then have y: "y = 400 * a + 100 * b + 4 * c + e + 1" and "m' = m" "d' = d"
        using assms(3) by simp_all
      then have md': "month_day_of (e = 3 \<and> (c \<noteq> 24 \<or> b = 3)) r4 = (m, d)"
        using md by simp
      have n: "n = 146097 * a + 36524 * b + 1461 * c + 365 * e + r4 + 1"
        using eq1 eq2 eq3 eq4 by (simp add: n0_def)
      have r4': "r4 \<le> 364"
        using r4(2) by simp
      from ymd_ok_general [OF n assms(2) a b(1) b3 c e(1) e3 r4(1) r4' y md']
      show ?thesis .
    qed
  qed
qed

lemma div_step:
  fixes y k :: int
  assumes "0 < k"
  shows "y div k = (y - 1) div k + (if y mod k = 0 then 1 else 0)"
proof (cases "y mod k = 0")
  case True
  have "y - 1 = k * (y div k - 1) + (k - 1)"
    using True mult_div_mod_eq [of k y] by (simp add: algebra_simps)
  then have "(y - 1) div k = y div k - 1"
    by (rule int_div_pos_eq) (use assms in simp_all)
  then show ?thesis using True by simp
next
  case False
  have "0 \<le> y mod k" "y mod k < k"
    using assms by simp_all
  then have pos: "0 \<le> y mod k - 1" "y mod k - 1 < k"
    using False by simp_all
  have "y - 1 = k * (y div k) + (y mod k - 1)"
    using mult_div_mod_eq [of k y] by simp
  then have "(y - 1) div k = y div k"
    using pos by (rule int_div_pos_eq)
  then show ?thesis using False by simp
qed

lemma leap_count:
  fixes p4 p100 p400 :: bool
  assumes "p400 \<Longrightarrow> p100" "p100 \<Longrightarrow> p4"
  shows "(if p4 then 1 else 0) - (if p100 then 1 else 0) + (if p400 then 1 else 0)
           = (if p4 \<and> (\<not> p100 \<or> p400) then 1 else (0::int))"
  using assms by auto

lemma days_before_year_step:
  "days_before_year (y + 1) = days_before_year y + 365 + (if is_leap y then 1 else 0)"
proof -
  have m100: "y mod 400 = 0 \<Longrightarrow> y mod 100 = 0"
    using mod_mod_cancel [of 100 400 y] by simp
  have m4: "y mod 100 = 0 \<Longrightarrow> y mod 4 = 0"
    using mod_mod_cancel [of 4 100 y] by simp
  define q4 where "q4 = (y - 1) div 4"
  define q100 where "q100 = (y - 1) div 100"
  define q400 where "q400 = (y - 1) div 400"
  have d4: "y div 4 = q4 + (if y mod 4 = 0 then 1 else 0)"
    unfolding q4_def by (rule div_step) simp
  have d100: "y div 100 = q100 + (if y mod 100 = 0 then 1 else 0)"
    unfolding q100_def by (rule div_step) simp
  have d400: "y div 400 = q400 + (if y mod 400 = 0 then 1 else 0)"
    unfolding q400_def by (rule div_step) simp
  have lhs: "days_before_year (y + 1) = y * 365 + y div 4 - y div 100 + y div 400"
    by (simp add: days_before_year_def Let_def)
  have rhs: "days_before_year y = (y - 1) * 365 + q4 - q100 + q400"
    by (simp add: days_before_year_def Let_def q4_def q100_def q400_def)
  have "(if y mod 4 = 0 then 1 else 0) - (if y mod 100 = 0 then 1 else 0)
          + (if y mod 400 = 0 then 1 else 0) = (if is_leap y then 1 else (0::int))"
    unfolding is_leap_def using m100 m4 by (rule leap_count)
  then show ?thesis
    unfolding lhs rhs d4 d100 d400 by (simp add: algebra_simps)
qed

lemma days_before_year_mono:
  assumes "y < y'"
  shows "days_before_year y + 365 + (if is_leap y then 1 else 0) \<le> days_before_year y'"
proof -
  have "y + 1 \<le> y'"
    using assms by simp
  then show ?thesis
  proof (induction y' rule: int_ge_induct)
    case base
    then show ?case by (simp add: days_before_year_step)
  next
    case (step i)
    have "days_before_year i \<le> days_before_year (i + 1)"
      by (simp add: days_before_year_step)
    with step.IH show ?case by linarith
  qed
qed

lemma day_of_year_table:
  "\<forall>m \<in> {1..12}. \<forall>leap \<in> {True, False}.
     0 \<le> DAYS_BEFORE_MONTH ! nat m + (if m > 2 \<and> leap then 1 else 0)
     \<and> DAYS_BEFORE_MONTH ! nat m + (if m > 2 \<and> leap then 1 else 0)
         + (if m = 2 \<and> leap then 29 else DAYS_IN_MONTH ! nat m)
         \<le> (if m = 12 then 365 + (if leap then 1 else 0)
             else DAYS_BEFORE_MONTH ! nat (m + 1) + (if m + 1 > 2 \<and> leap then 1 else 0))
     \<and> (\<forall>m' \<in> {1..12}. m \<le> m' \<longrightarrow>
           DAYS_BEFORE_MONTH ! nat m + (if m > 2 \<and> leap then 1 else 0)
           \<le> DAYS_BEFORE_MONTH ! nat m' + (if m' > 2 \<and> leap then 1 else 0))
     \<and> DAYS_BEFORE_MONTH ! nat m + (if m > 2 \<and> leap then 1 else 0)
         + (if m = 2 \<and> leap then 29 else DAYS_IN_MONTH ! nat m) \<le> 365 + (if leap then 1 else 0)"
  by code_simp

lemma days_before_month_facts:
  assumes "1 \<le> m" "m \<le> 12"
  shows "0 \<le> days_before_month y m"
    and "days_before_month y m + days_in_month y m \<le> 365 + (if is_leap y then 1 else 0)"
    and "m < m' \<Longrightarrow> m' \<le> 12 \<Longrightarrow> days_before_month y m + days_in_month y m \<le> days_before_month y m'"
proof -
  have m: "m \<in> {1..12}" and l: "is_leap y \<in> {True, False}"
    using assms by auto
  note tab = day_of_year_table [rule_format, OF m l]
  show "0 \<le> days_before_month y m"
    using tab by (simp add: days_before_month_def)
  show "days_before_month y m + days_in_month y m \<le> 365 + (if is_leap y then 1 else 0)"
    using tab by (simp add: days_before_month_def days_in_month_def)
  show "days_before_month y m + days_in_month y m \<le> days_before_month y m'"
    if "m < m'" "m' \<le> 12"
  proof -
    have m1: "m + 1 \<in> {1..12}" and le: "m + 1 \<le> m'" and m': "m' \<in> {1..12}" and ne: "m \<noteq> 12"
      using that assms by auto
    have "days_before_month y m + days_in_month y m \<le> days_before_month y (m + 1)"
      using tab ne by (simp add: days_before_month_def days_in_month_def)
    also have "\<dots> \<le> days_before_month y m'"
      using day_of_year_table [rule_format, OF m1 l] m' le
      by (simp add: days_before_month_def)
    finally show ?thesis .
  qed
qed

lemma valid_date_iff:
  "valid_date dt \<longleftrightarrow>
     1 \<le> year dt \<and> year dt \<le> 9999 \<and> 1 \<le> month dt \<and> month dt \<le> 12
     \<and> 1 \<le> day dt \<and> day dt \<le> days_in_month (year dt) (month dt)"
  by (auto simp: valid_date_def date_new_def MINYEAR_def MAXYEAR_def)

lemma day_of_year_bounds:
  assumes "valid_date dt"
  shows "1 \<le> days_before_month (year dt) (month dt) + day dt"
    and "days_before_month (year dt) (month dt) + day dt
           \<le> 365 + (if is_leap (year dt) then 1 else 0)"
proof -
  have m: "1 \<le> month dt" "month dt \<le> 12"
    and d: "1 \<le> day dt" "day dt \<le> days_in_month (year dt) (month dt)"
    using assms by (simp_all add: valid_date_iff)
  show "1 \<le> days_before_month (year dt) (month dt) + day dt"
    using days_before_month_facts(1) [OF m, of "year dt"] d(1) by linarith
  show "days_before_month (year dt) (month dt) + day dt
           \<le> 365 + (if is_leap (year dt) then 1 else 0)"
    using days_before_month_facts(2) [OF m, of "year dt"] d(2) by linarith
qed

lemma toordinal_strict_mono:
  assumes a: "valid_date a" and b: "valid_date b" and lt: "date_lt a b"
  shows "toordinal a < toordinal b"
proof -
  consider (y) "year a < year b"
    | (m) "year a = year b" "month a < month b"
    | (d) "year a = year b" "month a = month b" "day a < day b"
    using lt by (auto simp: date_lt_def)
  then show ?thesis
  proof cases
    case y
    have "toordinal a \<le> days_before_year (year a) + 365 + (if is_leap (year a) then 1 else 0)"
      using day_of_year_bounds(2) [OF a] by (simp add: toordinal_def ymd2ord_def)
    also have "\<dots> \<le> days_before_year (year b)"
      using y by (rule days_before_year_mono)
    also have "\<dots> < toordinal b"
      using day_of_year_bounds(1) [OF b] by (simp add: toordinal_def ymd2ord_def)
    finally show ?thesis .
  next
    case m
    have ma: "1 \<le> month a" "month a \<le> 12" and mb: "month b \<le> 12"
      and da: "day a \<le> days_in_month (year a) (month a)" and db: "1 \<le> day b"
      using a b by (simp_all add: valid_date_iff)
    have "days_before_month (year a) (month a) + days_in_month (year a) (month a)
            \<le> days_before_month (year a) (month b)"
      using ma m(2) mb by (rule days_before_month_facts(3))
    then show ?thesis
      using da db m(1) by (simp add: toordinal_def ymd2ord_def)
  next
    case d
    then show ?thesis
      by (simp add: toordinal_def ymd2ord_def)
  qed
qed

lemma date_lt_total:
  "date_lt a b \<or> a = b \<or> date_lt b a"
  by (cases a; cases b) (auto simp: date_lt_def)

lemma date_lt_iff_toordinal:
  assumes "valid_date a" "valid_date b"
  shows "date_lt a b \<longleftrightarrow> toordinal a < toordinal b"
proof
  assume "date_lt a b"
  with assms show "toordinal a < toordinal b"
    by (rule toordinal_strict_mono)
next
  assume less: "toordinal a < toordinal b"
  show "date_lt a b"
  proof (rule ccontr)
    assume "\<not> date_lt a b"
    then consider "a = b" | "date_lt b a"
      using date_lt_total [of a b] by blast
    then show False
    proof cases
      case 1
      then show False using less by simp
    next
      case 2
      with assms(2,1) have "toordinal b < toordinal a"
        by (rule toordinal_strict_mono)
      then show False using less by simp
    qed
  qed
qed

lemma days_before_year_nonneg:
  assumes "1 \<le> y"
  shows "0 \<le> days_before_year y"
proof (cases "y = 1")
  case True
  then show ?thesis by (simp add: days_before_year_def)
next
  case False
  then have "1 < y" using assms by simp
  then have "days_before_year 1 + 365 + (if is_leap 1 then 1 else 0) \<le> days_before_year y"
    by (rule days_before_year_mono)
  then show ?thesis by (simp add: days_before_year_def split: if_splits)
qed

lemma toordinal_range:
  assumes "valid_date dt"
  shows "1 \<le> toordinal dt" and "toordinal dt \<le> MAXORDINAL"
proof -
  have y: "1 \<le> year dt" "year dt < 10000"
    using assms by (simp_all add: valid_date_iff)
  show "1 \<le> toordinal dt"
    using days_before_year_nonneg [OF y(1)] day_of_year_bounds(1) [OF assms]
    by (simp add: toordinal_def ymd2ord_def)
  have "days_before_year (year dt) + 365 + (if is_leap (year dt) then 1 else 0)
          \<le> days_before_year 10000"
    using y(2) by (rule days_before_year_mono)
  moreover have "days_before_year 10000 = 3652059"
    by (simp add: days_before_year_def)
  ultimately show "toordinal dt \<le> MAXORDINAL"
    using day_of_year_bounds(2) [OF assms]
    by (simp add: toordinal_def ymd2ord_def MAXORDINAL_def)
qed

lemma fromordinal_valid:
  assumes "1 \<le> n" "n \<le> MAXORDINAL"
  shows "valid_date (fromordinal n)" and "toordinal (fromordinal n) = n"
proof -
  obtain y m d where ymd: "ord2ymd n = (y, m, d)"
    by (cases "ord2ymd n")
  from ord2ymd_correct [OF assms this]
  show "valid_date (fromordinal n)" and "toordinal (fromordinal n) = n"
    by (simp_all add: fromordinal_def ymd valid_date_iff toordinal_def MINYEAR_def MAXYEAR_def)
qed

lemma date_add_one_day:
  assumes "valid_date dt" "toordinal dt < MAXORDINAL"
  shows "\<exists>dt'. date_add_days dt 1 = Inr dt' \<and> valid_date dt' \<and> toordinal dt' = toordinal dt + 1"
proof -
  have "1 \<le> toordinal dt + 1" "toordinal dt + 1 \<le> MAXORDINAL"
    using toordinal_range(1) [OF assms(1)] assms(2) by simp_all
  from fromordinal_valid [OF this] this
  show ?thesis
    by (simp add: date_add_days_def Let_def)
qed

subsection \<open>Stop-time pairing\<close>

lemma zip_drop_1_nth:
  "i + 1 < length xs \<Longrightarrow> zip (drop 0 xs) (drop 1 xs) ! i = (xs ! i, xs ! (i + 1))"
  by simp

text \<open>
  C8. For a trip whose attached \<^verbatim>\<open>stop_times\<close> has \<open>n\<close> elements, \<^verbatim>\<open>hops()\<close>
  returns normally and yields exactly \<open>n - 1\<close> pairs, the \<open>i\<close>-th being
  \<open>(stop_times[i], stop_times[i+1])\<close> for \<open>i = 0 .. n-2\<close>, in that order (the list of
  these pairs, built index by index); for \<open>n = 0\<close> and \<open>n = 1\<close> it yields no pair.
\<close>

theorem hops_consecutive_pairs:
  assumes "stop_times t = Some sts"
  shows "hops t = Inr (map (\<lambda>i. (sts ! i, sts ! (i + 1))) [0..<length sts - 1])
       \<and> (length sts \<le> 1 \<longrightarrow> hops t = Inr [])"
proof -
  let ?ps = "zip (drop 0 sts) (drop 1 sts)"
  have len: "length ?ps = length sts - 1"
    by simp
  have "?ps = map (\<lambda>i. (sts ! i, sts ! (i + 1))) [0..<length sts - 1]"
  proof (rule nth_equalityI)
    show "length ?ps = length (map (\<lambda>i. (sts ! i, sts ! (i + 1))) [0..<length sts - 1])"
      using len by simp
  next
    fix i assume "i < length ?ps"
    then have "i + 1 < length sts"
      using len by simp
    then show "?ps ! i = map (\<lambda>i. (sts ! i, sts ! (i + 1))) [0..<length sts - 1] ! i"
      using zip_drop_1_nth [of i sts] by simp
  qed
  moreover have "length sts \<le> 1 \<longrightarrow> ?ps = []"
    by (cases sts) auto
  ultimately show ?thesis
    using assms by (simp add: hops_def)
qed

theorem hops_consecutive_pairs_witness:
  "stop_times sample_trip
     = Some [sample_stop_time ''A'' 1, sample_stop_time ''B'' 2, sample_stop_time ''C'' 3]
   \<and> hops sample_trip
     = Inr [(sample_stop_time ''A'' 1, sample_stop_time ''B'' 2),
            (sample_stop_time ''B'' 2, sample_stop_time ''C'' 3)]"
proof -
  have st: "stop_times sample_trip
     = Some [sample_stop_time ''A'' 1, sample_stop_time ''B'' 2, sample_stop_time ''C'' 3]"
    by (simp add: sample_trip_def)
  have idx: "[0..<length [sample_stop_time ''A'' 1, sample_stop_time ''B'' 2,
                          sample_stop_time ''C'' 3] - 1] = [0, 1]"
    by (simp add: upt_rec)
  show ?thesis
    using st hops_consecutive_pairs [OF st] by (simp add: idx)
qed

subsection \<open>Date ranges\<close>

lemma next_day_one:
  assumes "valid_date (date c)" "toordinal (date c) < MAXORDINAL"
  shows "\<exists>c'. next_day c 1 = Inr c' \<and> valid_date (date c')
           \<and> toordinal (date c') = toordinal (date c) + 1"
proof -
  obtain dt' where "date_add_days (date c) 1 = Inr dt'" "valid_date dt'"
      "toordinal dt' = toordinal (date c) + 1"
    using date_add_one_day [OF assms] by blast
  then show ?thesis
    by (simp add: next_day_def CalendarDate_init_def)
qed

lemma range_empty:
  assumes "CalendarDate_lt c end = Inr False"
  shows "CalendarDate_range c end = Some ([], None)"
  by (subst CalendarDate_range.simps) (simp add: assms)

lemma range_step:
  assumes "CalendarDate_lt c end = Inr True" "next_day c 1 = Inr c'"
    "CalendarDate_range c' end = Some (ys, exc)"
  shows "CalendarDate_range c end = Some (c # ys, exc)"
  by (subst CalendarDate_range.simps) (simp add: assms)

lemma range_yields:
  assumes "coerce end = Inr de" "valid_date de" "valid_date (date c)"
    "k = nat (toordinal de - toordinal (date c))"
  shows "\<exists>ys. CalendarDate_range c end = Some (ys, None)
           \<and> length ys = k
           \<and> (ys \<noteq> [] \<longrightarrow> ys ! 0 = c)
           \<and> (\<forall>i. i + 1 < length ys \<longrightarrow> next_day (ys ! i) 1 = Inr (ys ! (i + 1)))
           \<and> (\<forall>i < length ys. toordinal (date (ys ! i)) = toordinal (date c) + int i)"
  using assms(3,4)
proof (induction k arbitrary: c)
  case 0
  then have "\<not> toordinal (date c) < toordinal de"
    by simp
  then have "\<not> date_lt (date c) de"
    using date_lt_iff_toordinal [OF "0.prems"(1) assms(2)] by simp
  then have "CalendarDate_lt c end = Inr False"
    by (simp add: CalendarDate_lt_def assms(1))
  then have "CalendarDate_range c end = Some ([], None)"
    by (rule range_empty)
  then show ?case by simp
next
  case (Suc k)
  then have less: "toordinal (date c) < toordinal de"
    by simp
  then have "date_lt (date c) de"
    using date_lt_iff_toordinal [OF Suc.prems(1) assms(2)] by simp
  then have lt: "CalendarDate_lt c end = Inr True"
    by (simp add: CalendarDate_lt_def assms(1))
  have "toordinal (date c) < MAXORDINAL"
    using less toordinal_range(2) [OF assms(2)] by simp
  then obtain c' where c': "next_day c 1 = Inr c'" "valid_date (date c')"
      "toordinal (date c') = toordinal (date c) + 1"
    using next_day_one [OF Suc.prems(1)] by blast
  have "k = nat (toordinal de - toordinal (date c'))"
    using Suc.prems(2) c'(3) by simp
  from Suc.IH [OF c'(2) this] obtain ys where
    ys: "CalendarDate_range c' end = Some (ys, None)" "length ys = k"
      "ys \<noteq> [] \<longrightarrow> ys ! 0 = c'"
      "\<forall>i. i + 1 < length ys \<longrightarrow> next_day (ys ! i) 1 = Inr (ys ! (i + 1))"
      "\<forall>i < length ys. toordinal (date (ys ! i)) = toordinal (date c') + int i"
    by blast
  have r: "CalendarDate_range c end = Some (c # ys, None)"
    using lt c'(1) ys(1) by (rule range_step)
  have chain: "next_day ((c # ys) ! i) 1 = Inr ((c # ys) ! (i + 1))" if "i + 1 < length (c # ys)" for i
  proof (cases i)
    case 0
    then show ?thesis using that c'(1) ys(3) by auto
  next
    case (Suc j)
    then show ?thesis using that ys(4) by simp
  qed
  have ord: "toordinal (date ((c # ys) ! i)) = toordinal (date c) + int i" if "i < length (c # ys)" for i
  proof (cases i)
    case 0
    then show ?thesis by simp
  next
    case (Suc j)
    then show ?thesis using that ys(5) c'(3) by simp
  qed
  show ?case
    using r ys(2) chain ord by simp
qed


lemma date_lt_asym: "date_lt a b \<Longrightarrow> \<not> date_lt b a"
  by (auto simp: date_lt_def)

lemma date_lt_irrefl: "\<not> date_lt a a"
  by (simp add: date_lt_def)

text \<open>
  C1. For two calendar dates \<open>d1 < d2\<close>, \<^verbatim>\<open>CalendarDate.range(d1, d2)\<close> ends
  without an exception and yields exactly \<^verbatim>\<open>(d2.date - d1.date).days\<close> values: the
  first is \<open>d1\<close>, each further one is \<^verbatim>\<open>next_day()\<close> of the one before, and none
  of them equals \<open>d2\<close>. When the end is less than or equal to the start, nothing is
  yielded. The dates are date objects of the calendar (\<open>valid_date\<close>).
\<close>

theorem CalendarDate_range_days:
  assumes "valid_date (date d1)" "valid_date (date d2)"
  shows "(CalendarDate_lt d1 (CalendarDateObj d2) = Inr True \<longrightarrow>
            (\<exists>ys. CalendarDate_range d1 (CalendarDateObj d2) = Some (ys, None)
               \<and> int (length ys) = date_sub_days (date d2) (date d1)
               \<and> ys ! 0 = d1
               \<and> (\<forall>i. i + 1 < length ys \<longrightarrow> next_day (ys ! i) 1 = Inr (ys ! (i + 1)))
               \<and> (\<forall>y \<in> set ys. CalendarDate_eq y (CalendarDateObj d2) = Inr False)))
       \<and> (CalendarDate_le d2 (CalendarDateObj d1) = Inr True \<longrightarrow>
            CalendarDate_range d1 (CalendarDateObj d2) = Some ([], None))"
proof (intro conjI impI)
  assume "CalendarDate_lt d1 (CalendarDateObj d2) = Inr True"
  then have "date_lt (date d1) (date d2)"
    by (simp add: CalendarDate_lt_def coerce_def)
  then have less: "toordinal (date d1) < toordinal (date d2)"
    using date_lt_iff_toordinal [OF assms] by simp
  have co: "coerce (CalendarDateObj d2) = Inr (date d2)"
    by (simp add: coerce_def)
  from range_yields [OF co assms(2,1) refl] obtain ys where
    ys: "CalendarDate_range d1 (CalendarDateObj d2) = Some (ys, None)"
      "length ys = nat (toordinal (date d2) - toordinal (date d1))"
      "ys \<noteq> [] \<longrightarrow> ys ! 0 = d1"
      "\<forall>i. i + 1 < length ys \<longrightarrow> next_day (ys ! i) 1 = Inr (ys ! (i + 1))"
      "\<forall>i < length ys. toordinal (date (ys ! i)) = toordinal (date d1) + int i"
    by blast
  have len: "int (length ys) = date_sub_days (date d2) (date d1)"
    using ys(2) less by (simp add: date_sub_days_def)
  have first: "ys ! 0 = d1"
    using ys(2,3) less by auto
  have "CalendarDate_eq y (CalendarDateObj d2) = Inr False" if "y \<in> set ys" for y
  proof -
    from that obtain i where i: "i < length ys" "ys ! i = y"
      unfolding in_set_conv_nth by blast
    then have "toordinal (date y) < toordinal (date d2)"
      using ys(5) ys(2) less by auto
    then have "date y \<noteq> date d2"
      by auto
    then show ?thesis
      by (simp add: CalendarDate_eq_def coerce_def)
  qed
  with ys(1) len first ys(4)
  show "\<exists>ys. CalendarDate_range d1 (CalendarDateObj d2) = Some (ys, None)
               \<and> int (length ys) = date_sub_days (date d2) (date d1)
               \<and> ys ! 0 = d1
               \<and> (\<forall>i. i + 1 < length ys \<longrightarrow> next_day (ys ! i) 1 = Inr (ys ! (i + 1)))
               \<and> (\<forall>y \<in> set ys. CalendarDate_eq y (CalendarDateObj d2) = Inr False)"
    by blast
next
  assume "CalendarDate_le d2 (CalendarDateObj d1) = Inr True"
  then have "date_lt (date d2) (date d1) \<or> date d2 = date d1"
    by (simp add: CalendarDate_le_def CalendarDate_lt_def CalendarDate_eq_def coerce_def
          split: if_splits)
  then have "\<not> date_lt (date d1) (date d2)"
    using date_lt_asym date_lt_irrefl by metis
  then have "CalendarDate_lt d1 (CalendarDateObj d2) = Inr False"
    by (simp add: CalendarDate_lt_def coerce_def)
  then show "CalendarDate_range d1 (CalendarDateObj d2) = Some ([], None)"
    by (rule range_empty)
qed

theorem CalendarDate_range_days_witness:
  "valid_date (date (sample_day 2020 2 27)) \<and> valid_date (date (sample_day 2020 3 2))
   \<and> CalendarDate_lt (sample_day 2020 2 27) (CalendarDateObj (sample_day 2020 3 2)) = Inr True
   \<and> CalendarDate_range (sample_day 2020 2 27) (CalendarDateObj (sample_day 2020 3 2))
       = Some ([sample_day 2020 2 27, sample_day 2020 2 28, sample_day 2020 2 29,
                sample_day 2020 3 1], None)
   \<and> date_sub_days (date (sample_day 2020 3 2)) (date (sample_day 2020 2 27)) = 4
   \<and> CalendarDate_le (sample_day 2020 2 27) (CalendarDateObj (sample_day 2020 2 27)) = Inr True
   \<and> CalendarDate_range (sample_day 2020 2 27) (CalendarDateObj (sample_day 2020 2 27))
       = Some ([], None)"
proof -
  note defs = sample_day_def CalendarDate_init_def CalendarDate_lt_def CalendarDate_le_def
    CalendarDate_eq_def coerce_def date_lt_def next_day_def date_add_days_def toordinal_def
    fromordinal_def ymd2ord_def ord2ymd_def month_day_of_def days_before_year_def
    days_before_month_def days_in_month_def is_leap_def DAYS_BEFORE_MONTH_def DAYS_IN_MONTH_def
    MAXORDINAL_def MINYEAR_def MAXYEAR_def valid_date_def date_new_def date_sub_days_def Let_def
  let ?a = "sample_day 2020 2 27" and ?b = "sample_day 2020 3 2"
  let ?end = "CalendarDateObj ?b"
  have va: "valid_date (date ?a)" and vb: "valid_date (date ?b)"
    by (simp_all add: defs)
  have lt: "CalendarDate_lt ?a ?end = Inr True"
    by (simp add: defs)
  have le: "CalendarDate_le ?a (CalendarDateObj ?a) = Inr True"
    by (simp add: defs)
  have "CalendarDate_lt (sample_day 2020 3 2) ?end = Inr False"
    by (simp add: defs)
  then have "CalendarDate_range (sample_day 2020 3 2) ?end = Some ([], None)"
    by (rule range_empty)
  then have "CalendarDate_range (sample_day 2020 3 1) ?end = Some ([sample_day 2020 3 1], None)"
    by (rule range_step [rotated 2]) (simp_all add: defs)
  then have "CalendarDate_range (sample_day 2020 2 29) ?end
      = Some ([sample_day 2020 2 29, sample_day 2020 3 1], None)"
    by (rule range_step [rotated 2]) (simp_all add: defs)
  then have "CalendarDate_range (sample_day 2020 2 28) ?end
      = Some ([sample_day 2020 2 28, sample_day 2020 2 29, sample_day 2020 3 1], None)"
    by (rule range_step [rotated 2]) (simp_all add: defs)
  then have run: "CalendarDate_range ?a ?end
      = Some ([?a, sample_day 2020 2 28, sample_day 2020 2 29, sample_day 2020 3 1], None)"
    by (rule range_step [rotated 2]) (simp_all add: defs)
  have "date_sub_days (date ?b) (date ?a) = 4"
    using CalendarDate_range_days [OF va vb] lt run by auto
  moreover have "CalendarDate_range ?a (CalendarDateObj ?a) = Some ([], None)"
    using CalendarDate_range_days [OF va va] le by simp
  ultimately show ?thesis
    using va vb lt le run by simp
qed

subsection \<open>Identity and order of stop times\<close>

lemma generic_hash_loop_cong:
  assumes "list_all2 (\<lambda>x y. hashf x = hashf y) xs ys"
  shows "generic_hash_loop hashf h xs = generic_hash_loop hashf h ys"
  using assms by (induction xs ys arbitrary: h rule: list_all2_induct) simp_all

text \<open>
  C2. Two stop times are equal exactly when the four components of their primary keys
  \<open>(feed_id, trip_id, stop_id, stop_sequence)\<close> are equal, each by Python's \<^verbatim>\<open>==\<close>;
  no other field takes part. Stop times with the same key have the same hash, and so have
  equal stop times, for every hash of values that agrees on equal values; a key field
  changed to an unequal value makes the stop times unequal.
\<close>

theorem StopTime_eq_hash_by_key:
  "StopTime_eq a (StopTimeObj b)
     = Inr (py_eq (StopTime.feed_id a) (StopTime.feed_id b)
            \<and> py_eq (StopTime.trip_id a) (StopTime.trip_id b)
            \<and> py_eq (StopTime.stop_id a) (StopTime.stop_id b)
            \<and> py_eq (stop_sequence a) (stop_sequence b))
   \<and> (primary_keys a = primary_keys b \<longrightarrow> StopTime_hash hashf a = StopTime_hash hashf b)
   \<and> ((\<forall>x y. py_eq x y \<longrightarrow> hashf x = hashf y) \<and> StopTime_eq a (StopTimeObj b) = Inr True
        \<longrightarrow> StopTime_hash hashf a = StopTime_hash hashf b)"
proof (intro conjI impI)
  show eq: "StopTime_eq a (StopTimeObj b)
     = Inr (py_eq (StopTime.feed_id a) (StopTime.feed_id b)
            \<and> py_eq (StopTime.trip_id a) (StopTime.trip_id b)
            \<and> py_eq (StopTime.stop_id a) (StopTime.stop_id b)
            \<and> py_eq (stop_sequence a) (stop_sequence b))"
    by (auto simp: StopTime_eq_def primary_keys_def py_ne_def)
  show "StopTime_hash hashf a = StopTime_hash hashf b" if "primary_keys a = primary_keys b"
    using that by (simp add: StopTime_hash_def)
  show "StopTime_hash hashf a = StopTime_hash hashf b"
    if h: "(\<forall>x y. py_eq x y \<longrightarrow> hashf x = hashf y) \<and> StopTime_eq a (StopTimeObj b) = Inr True"
  proof -
    have "list_all2 (\<lambda>x y. hashf x = hashf y) (primary_keys a) (primary_keys b)"
      using h unfolding eq by (simp add: primary_keys_def)
    then show ?thesis
      unfolding StopTime_hash_def generic_hash_def by (rule generic_hash_loop_cong)
  qed
qed

lemma sample_hash_respects_eq: "py_eq x y \<Longrightarrow> sample_hash x = sample_hash y"
  by (cases x; cases y) (simp_all add: py_eq_def sample_hash_def)

theorem StopTime_eq_hash_by_key_witness:
  "StopTime_eq (sample_stop_time ''A'' 1)
       (StopTimeObj ((sample_stop_time ''A'' 1)\<lparr>arrival_time := PyInt 99\<rparr>)) = Inr True
   \<and> (sample_stop_time ''A'' 1) \<noteq> (sample_stop_time ''A'' 1)\<lparr>arrival_time := PyInt 99\<rparr>
   \<and> StopTime_hash sample_hash (sample_stop_time ''A'' 1)
       = StopTime_hash sample_hash ((sample_stop_time ''A'' 1)\<lparr>arrival_time := PyInt 99\<rparr>)
   \<and> StopTime_eq (sample_stop_time ''A'' 1) (StopTimeObj (sample_stop_time ''B'' 1)) = Inr False
   \<and> StopTime_eq (sample_stop_time ''A'' 1) (StopTimeObj (sample_stop_time ''A'' 2)) = Inr False"
proof -
  let ?a = "sample_stop_time ''A'' 1"
  let ?b = "?a\<lparr>arrival_time := PyInt 99\<rparr>"
  have keys: "primary_keys ?a = primary_keys ?b"
    by (simp add: primary_keys_def)
  have resp: "\<forall>x y. py_eq x y \<longrightarrow> sample_hash x = sample_hash y"
    using sample_hash_respects_eq by blast
  have eq: "StopTime_eq ?a (StopTimeObj ?b) = Inr True"
    using StopTime_eq_hash_by_key [of ?a ?b sample_hash]
    by (simp add: sample_stop_time_def py_eq_def)
  have "StopTime_hash sample_hash ?a = StopTime_hash sample_hash ?b"
    using StopTime_eq_hash_by_key [of ?a ?b sample_hash] resp eq by blast
  moreover have "?a \<noteq> ?b"
    by (simp add: sample_stop_time_def)
  moreover have "StopTime_eq ?a (StopTimeObj (sample_stop_time ''B'' 1)) = Inr False"
    using StopTime_eq_hash_by_key [of ?a "sample_stop_time ''B'' 1" sample_hash]
    by (simp add: sample_stop_time_def py_eq_def)
  moreover have "StopTime_eq ?a (StopTimeObj (sample_stop_time ''A'' 2)) = Inr False"
    using StopTime_eq_hash_by_key [of ?a "sample_stop_time ''A'' 2" sample_hash]
    by (simp add: sample_stop_time_def py_eq_def)
  ultimately show ?thesis
    using eq by simp
qed

text \<open>
  C3. The less-than of stop times compares \<^verbatim>\<open>stop_sequence\<close> and nothing else: it is
  the \<^verbatim>\<open><\<close> of the two sequence values. For integer sequences \<open>n\<close> and \<open>m\<close> it is
  \<open>n < m\<close> whatever the stop identifiers are, so a stop time at position 1 is less than
  one at position 2, and the two are unequal by the key; two stop times at the same
  position with unequal \<^verbatim>\<open>stop_id\<close> are neither less than the other, yet unequal.
\<close>

theorem StopTime_lt_by_sequence:
  "StopTime_lt a (StopTimeObj b) = py_lt (stop_sequence a) (stop_sequence b)
   \<and> (stop_sequence a = PyInt n \<and> stop_sequence b = PyInt m \<longrightarrow>
        StopTime_lt a (StopTimeObj b) = Inr (n < m))
   \<and> (stop_sequence a = PyInt 1 \<and> stop_sequence b = PyInt 2 \<longrightarrow>
        StopTime_lt a (StopTimeObj b) = Inr True \<and> StopTime_eq a (StopTimeObj b) = Inr False)
   \<and> (stop_sequence a = PyInt n \<and> stop_sequence b = PyInt n
        \<and> \<not> py_eq (StopTime.stop_id a) (StopTime.stop_id b) \<longrightarrow>
        StopTime_lt a (StopTimeObj b) = Inr False \<and> StopTime_lt b (StopTimeObj a) = Inr False
        \<and> StopTime_eq a (StopTimeObj b) = Inr False)"
proof -
  have lt: "StopTime_lt x (StopTimeObj y) = py_lt (stop_sequence x) (stop_sequence y)" for x y
    by (simp add: StopTime_lt_def get_stop_sequence_def)
  have int_lt: "py_lt (PyInt i) (PyInt j) = Inr (i < j)" for i j
    by (simp add: py_lt_def)
  have eq: "StopTime_eq a (StopTimeObj b)
      = Inr (generic_eq (primary_keys a) (primary_keys b))"
    by (simp add: StopTime_eq_def)
  have keys: "generic_eq (primary_keys a) (primary_keys b)
     \<longleftrightarrow> py_eq (StopTime.feed_id a) (StopTime.feed_id b)
            \<and> py_eq (StopTime.trip_id a) (StopTime.trip_id b)
            \<and> py_eq (StopTime.stop_id a) (StopTime.stop_id b)
            \<and> py_eq (stop_sequence a) (stop_sequence b)"
    by (auto simp: primary_keys_def py_ne_def)
  have ne: "\<not> py_eq (PyInt 1) (PyInt 2)"
    by (simp add: py_eq_def)
  show ?thesis
    using ne by (auto simp: lt int_lt eq keys)
qed

theorem StopTime_lt_by_sequence_witness:
  "StopTime_lt (sample_stop_time ''Z'' 1) (StopTimeObj (sample_stop_time ''A'' 2)) = Inr True
   \<and> StopTime_eq (sample_stop_time ''Z'' 1) (StopTimeObj (sample_stop_time ''A'' 2)) = Inr False
   \<and> StopTime_lt (sample_stop_time ''A'' 5) (StopTimeObj (sample_stop_time ''B'' 5)) = Inr False
   \<and> StopTime_lt (sample_stop_time ''B'' 5) (StopTimeObj (sample_stop_time ''A'' 5)) = Inr False
   \<and> StopTime_eq (sample_stop_time ''A'' 5) (StopTimeObj (sample_stop_time ''B'' 5)) = Inr False"
proof -
  have s: "stop_sequence (sample_stop_time x k) = PyInt k"
      "StopTime.stop_id (sample_stop_time x k) = PyStr x" for x k
    by (simp_all add: sample_stop_time_def)
  have ne: "\<not> py_eq (PyStr ''A'') (PyStr ''B'')"
    by (simp add: py_eq_def)
  show ?thesis
    using StopTime_lt_by_sequence [of "sample_stop_time ''Z'' 1" "sample_stop_time ''A'' 2" 1 2]
      StopTime_lt_by_sequence [of "sample_stop_time ''A'' 5" "sample_stop_time ''B'' 5" 5 5]
      ne
    by (simp add: s py_lt_def)
qed

text \<open>
  C4. Comparing a stop time for equality with any value that is no \<^verbatim>\<open>StopTime\<close>
  instance returns \<^verbatim>\<open>False\<close>; it raises nothing.
\<close>

theorem StopTime_eq_other_kind:
  "\<not> isinstance_StopTime other \<Longrightarrow> StopTime_eq self other = Inr False"
  by (cases other) (simp_all add: StopTime_eq_def isinstance_StopTime_def)

theorem StopTime_eq_other_kind_witness:
  "\<not> isinstance_StopTime (Val (PyInt 5))
   \<and> StopTime_eq (sample_stop_time ''A'' 1) (Val (PyInt 5)) = Inr False
   \<and> \<not> isinstance_StopTime (TripObj sample_trip)
   \<and> StopTime_eq (sample_stop_time ''A'' 1) (TripObj sample_trip) = Inr False"
  using StopTime_eq_other_kind [of "Val (PyInt 5)" "sample_stop_time ''A'' 1"]
    StopTime_eq_other_kind [of "TripObj sample_trip" "sample_stop_time ''A'' 1"]
  by (simp add: isinstance_StopTime_def)

text \<open>
  C10. The less-than of a stop time with an operand that has no \<^verbatim>\<open>stop_sequence\<close>
  attribute raises \<^verbatim>\<open>AttributeError\<close> for that attribute, where equality with the
  same operand returns \<^verbatim>\<open>False\<close>. Every plain value, an integer for one, is such an
  operand.
\<close>

theorem StopTime_lt_without_attribute:
  "(get_stop_sequence other = Inl e \<longrightarrow>
      e = AttributeError ''stop_sequence'' \<and> StopTime_lt self other = Inl e
      \<and> StopTime_eq self other = Inr False)
   \<and> StopTime_lt self (Val v) = Inl (AttributeError ''stop_sequence'')
   \<and> StopTime_eq self (Val v) = Inr False"
proof (intro conjI impI)
  assume e: "get_stop_sequence other = Inl e"
  then show "e = AttributeError ''stop_sequence''"
    by (cases other)
      (auto simp: get_stop_sequence_def getattr_vars_def split: option.splits)
  show "StopTime_lt self other = Inl e"
    using e by (simp add: StopTime_lt_def)
  show "StopTime_eq self other = Inr False"
    using e by (cases other) (simp_all add: StopTime_eq_def get_stop_sequence_def)
next
  show "StopTime_lt self (Val v) = Inl (AttributeError ''stop_sequence'')"
    by (simp add: StopTime_lt_def get_stop_sequence_def)
  show "StopTime_eq self (Val v) = Inr False"
    by (simp add: StopTime_eq_def)
qed

theorem StopTime_lt_without_attribute_witness:
  "get_stop_sequence (TripObj sample_trip) = Inl (AttributeError ''stop_sequence'')
   \<and> StopTime_lt (sample_stop_time ''A'' 1) (TripObj sample_trip)
       = Inl (AttributeError ''stop_sequence'')
   \<and> StopTime_eq (sample_stop_time ''A'' 1) (TripObj sample_trip) = Inr False
   \<and> StopTime_lt (sample_stop_time ''A'' 1) (Val (PyInt 5)) = Inl (AttributeError ''stop_sequence'')"
proof -
  have "get_stop_sequence (TripObj sample_trip) = Inl (AttributeError ''stop_sequence'')"
    by (simp add: get_stop_sequence_def getattr_vars_def Trip_vars_def sample_trip_def)
  then show ?thesis
    using StopTime_lt_without_attribute [of "TripObj sample_trip"
        "AttributeError ''stop_sequence''" "sample_stop_time ''A'' 1" "PyInt 5"]
    by simp
qed

subsection \<open>The hash of a calendar date\<close>

text \<open>
  C6. The hash of a calendar date is \<open>year * 384 + month * 32 + day\<close> of its date. Two
  calendar dates with the same date are equal and have the same hash, whatever their
  \<^verbatim>\<open>feed_id\<close> and \<^verbatim>\<open>service_id\<close> are.
\<close>

theorem CalendarDate_hash_by_date:
  "CalendarDate_hash c = year (date c) * 384 + month (date c) * 32 + day (date c)
   \<and> (date c1 = date c2 \<longrightarrow>
        CalendarDate_eq c1 (CalendarDateObj c2) = Inr True
        \<and> CalendarDate_hash c1 = CalendarDate_hash c2)"
  by (simp add: CalendarDate_hash_def CalendarDate_eq_def coerce_def)

theorem CalendarDate_hash_by_date_witness:
  "date ((sample_day 2020 1 15)\<lparr>CalendarDate.feed_id := PyStr ''F'', CalendarDate.service_id := Some (PyStr ''WEEK'')\<rparr>)
     = date ((sample_day 2020 1 15)\<lparr>CalendarDate.feed_id := PyStr ''G'', CalendarDate.service_id := Some (PyStr ''SAT'')\<rparr>)
   \<and> CalendarDate_eq
        ((sample_day 2020 1 15)\<lparr>CalendarDate.feed_id := PyStr ''F'', CalendarDate.service_id := Some (PyStr ''WEEK'')\<rparr>)
        (CalendarDateObj
          ((sample_day 2020 1 15)\<lparr>CalendarDate.feed_id := PyStr ''G'', CalendarDate.service_id := Some (PyStr ''SAT'')\<rparr>))
        = Inr True
   \<and> CalendarDate_hash
        ((sample_day 2020 1 15)\<lparr>CalendarDate.feed_id := PyStr ''F'', CalendarDate.service_id := Some (PyStr ''WEEK'')\<rparr>)
        = 775727
   \<and> CalendarDate_hash
        ((sample_day 2020 1 15)\<lparr>CalendarDate.feed_id := PyStr ''G'', CalendarDate.service_id := Some (PyStr ''SAT'')\<rparr>)
        = 775727"
  using CalendarDate_hash_by_date
    [of "(sample_day 2020 1 15)\<lparr>CalendarDate.feed_id := PyStr ''G'', CalendarDate.service_id := Some (PyStr ''SAT'')\<rparr>"
        "(sample_day 2020 1 15)\<lparr>CalendarDate.feed_id := PyStr ''F'', CalendarDate.service_id := Some (PyStr ''WEEK'')\<rparr>"
        "(sample_day 2020 1 15)\<lparr>CalendarDate.feed_id := PyStr ''G'', CalendarDate.service_id := Some (PyStr ''SAT'')\<rparr>"]
  by (simp add: sample_day_def CalendarDate_init_def)

end
